theory Spec2Isabelle
  imports Main "HOL-Library.Sublist" "HOL-Library.AList" "HOL-Library.Multiset"
begin

section \<open>Strings, cells and data frames\<close>

text \<open>
  A Python \<open>str\<close> is a sequence of Unicode code points, so it is modelled as a list of
  naturals (\<open>len\<close> then counts what Python counts). \<open>u\<close> turns an ASCII literal into
  such a string; accented letters are written by their code point.
\<close>

type_synonym pystr = "nat list"

definition u :: "string \<Rightarrow> pystr" where
  "u s = map of_char s"

text \<open>\<open>pat in s\<close> of Python: \<open>pat\<close> occurs in \<open>s\<close> as a contiguous substring.\<close>

fun py_in :: "pystr \<Rightarrow> pystr \<Rightarrow> bool" where
  "py_in pat [] = (pat = [])"
| "py_in pat (c # cs) = (prefix pat (c # cs) \<or> py_in pat cs)"

text \<open>
  A cell of a pandas data frame: a missing value (\<open>NaN\<close>), a text, a number, or (in the two
  derived columns) a list of texts.
\<close>

datatype cell = NaN | Str pystr | Num int | Lst "pystr list"

datatype error =
    KeyError pystr
  | AttributeError
  | FileNotFoundError
  | TypeError
  | ReError
  | NotModelled

text \<open>
  A data frame has its column labels and its rows in order; a row holds one cell per
  column label. A frame may have columns and no rows (a view filtered down to nothing), and
  \<open>pd.DataFrame()\<close> has neither.
\<close>

type_synonym row = "(pystr \<times> cell) list"

record dataframe =
  columns :: "pystr list"
  rows :: "row list"

definition empty_frame :: dataframe where
  "empty_frame = \<lparr>columns = [], rows = []\<rparr>"

definition df_empty :: "dataframe \<Rightarrow> bool" where
  "df_empty df = (columns df = [] \<or> rows df = [])"

definition cell_of :: "row \<Rightarrow> pystr \<Rightarrow> cell" where
  "cell_of r c = (case map_of r c of Some v \<Rightarrow> v | None \<Rightarrow> NaN)"

text \<open>\<open>df[c]\<close>: the values of column \<open>c\<close>, or \<open>KeyError\<close> when there is no such column.\<close>

definition getitem :: "dataframe \<Rightarrow> pystr \<Rightarrow> error + cell list" where
  "getitem df c =
     (if c \<in> set (columns df) then Inr (map (\<lambda>r. cell_of r c) (rows df))
      else Inl (KeyError c))"

text \<open>\<open>df[mask]\<close>: the rows whose entry in the boolean mask is true, in order.\<close>

definition mask_rows :: "dataframe \<Rightarrow> bool list \<Rightarrow> dataframe" where
  "mask_rows df bs = df\<lparr>rows := map fst (filter snd (zip (rows df) bs))\<rparr>"

text \<open>\<open>df[c] = vals\<close>: replaces the column, or appends it as the last one.\<close>

definition set_column :: "dataframe \<Rightarrow> pystr \<Rightarrow> cell list \<Rightarrow> dataframe" where
  "set_column df c vals =
     \<lparr>columns = (if c \<in> set (columns df) then columns df else columns df @ [c]),
      rows = map (\<lambda>(r, v). AList.update c v r) (zip (rows df) vals)\<rparr>"

text \<open>\<open>df.drop(c, axis=1)\<close>: \<open>KeyError\<close> when the column is absent.\<close>

definition drop_column :: "dataframe \<Rightarrow> pystr \<Rightarrow> error + dataframe" where
  "drop_column df c =
     (if c \<in> set (columns df)
      then Inr \<lparr>columns = filter (\<lambda>k. k \<noteq> c) (columns df),
                rows = map (filter (\<lambda>kv. fst kv \<noteq> c)) (rows df)\<rparr>
      else Inl (KeyError c))"

text \<open>
  The \<open>.str\<close> accessor of a column raises \<open>AttributeError\<close> on a column that holds
  neither a text nor a list (a numeric dtype); a column without rows is taken to have the
  object dtype.
  On an object column a method of \<open>.str\<close> gives \<open>NaN\<close> at every cell that is not a text.
\<close>

fun is_Str :: "cell \<Rightarrow> bool" where
  "is_Str (Str s) = True"
| "is_Str v = False"

fun is_object :: "cell \<Rightarrow> bool" where
  "is_object (Str s) = True"
| "is_object (Lst xs) = True"
| "is_object v = False"

definition str_accessor :: "cell list \<Rightarrow> error + cell list" where
  "str_accessor vals =
     (if vals = [] \<or> (\<exists>v \<in> set vals. is_object v) then Inr vals else Inl AttributeError)"

section \<open>utils/data_processor.py: loading and cleaning\<close>

definition ideia_resumo :: pystr where "ideia_resumo = u ''ideia_resumo''"

definition apps_semelhantes :: pystr where "apps_semelhantes = u ''apps_semelhantes''"

definition Alertas_etico_legais :: pystr where "Alertas_etico_legais = u ''Alertas_etico_legais''"

definition apps_semelhantes_lista :: pystr where "apps_semelhantes_lista = u ''apps_semelhantes_lista''"

definition alertas_lista :: pystr where "alertas_lista = u ''alertas_lista''"

definition Complexidade :: pystr where "Complexidade = u ''Complexidade''"

text \<open>\<open>str.split(';')\<close>: always at least one piece.\<close>

fun split_semi :: "pystr \<Rightarrow> pystr list" where
  "split_semi [] = [[]]"
| "split_semi (c # cs) =
     (if c = 59 then [] # split_semi cs
      else (case split_semi cs of p # ps \<Rightarrow> (c # p) # ps | [] \<Rightarrow> [[c]]))"

text \<open>\<open>str.strip()\<close> removes the characters for which \<open>str.isspace\<close> holds at both ends.\<close>

definition py_isspace :: "nat \<Rightarrow> bool" where
  "py_isspace c =
     ((9 \<le> c \<and> c \<le> 13) \<or> (28 \<le> c \<and> c \<le> 32) \<or> c = 133 \<or> c = 160 \<or> c = 5760
      \<or> (8192 \<le> c \<and> c \<le> 8202) \<or> c = 8232 \<or> c = 8233 \<or> c = 8239 \<or> c = 8287
      \<or> c = 12288)"

definition strip :: "pystr \<Rightarrow> pystr" where
  "strip s = rev (dropWhile py_isspace (rev (dropWhile py_isspace s)))"

text \<open>
  The lambda of both derived columns:
  \<open>[p.strip() for p in x.split(';')] if x else []\<close>. After \<open>fillna('')\<close> a cell is a text
  or a number; a number other than 0 is truthy and has no \<open>split\<close>.
\<close>

fun split_list :: "cell \<Rightarrow> error + cell" where
  "split_list (Str x) = (if x = [] then Inr (Lst []) else Inr (Lst (map strip (split_semi x))))"
| "split_list (Num n) = (if n = 0 then Inr (Lst []) else Inl AttributeError)"
| "split_list NaN = Inl AttributeError"
| "split_list (Lst xs) = (if xs = [] then Inr (Lst []) else Inl AttributeError)"

text \<open>\<open>Series.apply\<close>: the first exception of the function is the result.\<close>

fun apply_cells :: "(cell \<Rightarrow> error + cell) \<Rightarrow> cell list \<Rightarrow> error + cell list" where
  "apply_cells f [] = Inr []"
| "apply_cells f (v # vs) =
     (case f v of
        Inl e \<Rightarrow> Inl e
      | Inr w \<Rightarrow> (case apply_cells f vs of Inl e \<Rightarrow> Inl e | Inr ws \<Rightarrow> Inr (w # ws)))"

text \<open>
  \<open>.str.contains('Sem ideia|indefinido', na=False)\<close>: the pattern is an alternation of
  two literal texts, so the search succeeds exactly when one of them occurs; a cell that is
  not a text gives \<open>NaN\<close>, which \<open>na=False\<close> turns into False.
\<close>

fun contains_sentinel :: "cell \<Rightarrow> bool" where
  "contains_sentinel (Str s) = (py_in (u ''Sem ideia'') s \<or> py_in (u ''indefinido'') s)"
| "contains_sentinel v = False"

fun fill_cell :: "cell \<Rightarrow> cell" where
  "fill_cell NaN = Str []"
| "fill_cell v = v"

definition fillna :: "dataframe \<Rightarrow> dataframe" where
  "fillna df = df\<lparr>rows := map (map (\<lambda>kv. (fst kv, fill_cell (snd kv)))) (rows df)\<rparr>"

definition derive_column :: "dataframe \<Rightarrow> pystr \<Rightarrow> pystr \<Rightarrow> error + dataframe" where
  "derive_column df src dst =
     (case getitem df src of
        Inl e \<Rightarrow> Inl e
      | Inr vals \<Rightarrow>
          (case apply_cells split_list vals of
             Inl e \<Rightarrow> Inl e
           | Inr ws \<Rightarrow> Inr (set_column df dst ws)))"

text \<open>
  \<open>DataProcessor._clean_data\<close>. The dtype of the summary column is the one
  \<open>read_csv\<close> gave it, which \<open>dropna\<close> keeps: the accessor is checked on the column as read.
\<close>

definition clean_data :: "dataframe \<Rightarrow> error + dataframe" where
  "clean_data df =
     (if df_empty df then Inr df
      else
        (case getitem df ideia_resumo of
           Inl e \<Rightarrow> Inl e
         | Inr col \<Rightarrow>
             let df1 = df\<lparr>rows := filter (\<lambda>r. cell_of r ideia_resumo \<noteq> NaN) (rows df)\<rparr> in
             (case str_accessor col of
                Inl e \<Rightarrow> Inl e
              | Inr _ \<Rightarrow>
                  let df2 = mask_rows df1
                        (map (\<lambda>r. \<not> contains_sentinel (cell_of r ideia_resumo)) (rows df1));
                      df3 = fillna df2
                  in (case derive_column df3 apps_semelhantes apps_semelhantes_lista of
                        Inl e \<Rightarrow> Inl e
                      | Inr df4 \<Rightarrow> derive_column df4 Alertas_etico_legais alertas_lista))))"

text \<open>
  \<open>DataProcessor._load_data\<close>. The outcome of \<open>pd.read_csv\<close> is an argument: the frame
  read, or the exception raised. Every exception ends in \<open>pd.DataFrame()\<close>.
\<close>

definition load_data :: "pystr \<Rightarrow> error + dataframe \<Rightarrow> dataframe" where
  "load_data csv_path read_csv =
     (if csv_path = [] then empty_frame
      else
        (case read_csv of
           Inl e \<Rightarrow> empty_frame
         | Inr df \<Rightarrow> (case clean_data df of Inl e \<Rightarrow> empty_frame | Inr df' \<Rightarrow> df')))"

section \<open>utils/data_processor.py: aggregation queries\<close>

definition RN_camera :: pystr where "RN_camera = u ''RN_camera''"

definition RN_maps :: pystr where "RN_maps = u ''RN_maps''"

definition RN_notificacoes :: pystr where "RN_notificacoes = u ''RN_notificacoes''"

definition RN_autenticacao :: pystr where "RN_autenticacao = u ''RN_autenticacao''"

definition RN_pagamentos :: pystr where "RN_pagamentos = u ''RN_pagamentos''"

definition Sim :: pystr where "Sim = u ''Sim''"

definition rn_features :: "pystr list" where
  "rn_features = [RN_camera, RN_maps, RN_notificacoes, RN_autenticacao, RN_pagamentos]"

text \<open>\<open>row[c]\<close> for a row of \<open>iterrows\<close>.\<close>

definition row_get :: "row \<Rightarrow> pystr \<Rightarrow> error + cell" where
  "row_get r c = (case map_of r c of None \<Rightarrow> Inl (KeyError c) | Some v \<Rightarrow> Inr v)"

text \<open>
  \<open>Series.value_counts()\<close>: the distinct values other than \<open>NaN\<close> with their numbers of
  occurrences, most frequent first. pandas leaves the order among equal counts open; here
  it is the order of first occurrence.
\<close>

definition first_seen :: "'a list \<Rightarrow> 'a list" where
  "first_seen xs = rev (remdups (rev xs))"

definition value_counts :: "'a list \<Rightarrow> ('a \<times> nat) list" where
  "value_counts xs =
     sort_key (\<lambda>p. - int (snd p)) (map (\<lambda>x. (x, count_list xs x)) (first_seen xs))"

definition get_complexity_distribution :: "dataframe \<Rightarrow> error + (cell \<times> nat) list" where
  "get_complexity_distribution df =
     (case getitem df Complexidade of
        Inl e \<Rightarrow> Inl e
      | Inr vals \<Rightarrow> Inr (value_counts (filter (\<lambda>v. v \<noteq> NaN) vals)))"

text \<open>
  \<open>feature.replace('RN_', '').title()\<close>, for ASCII text: every occurrence of \<open>RN_\<close> is
  removed, then each run of letters starts with a capital and goes on in lower case.
\<close>

fun remove_RN :: "pystr \<Rightarrow> pystr" where
  "remove_RN (a # b # c # rest) =
     (if a = 82 \<and> b = 78 \<and> c = 95 then remove_RN rest else a # remove_RN (b # c # rest))"
| "remove_RN s = s"

fun title_from :: "bool \<Rightarrow> pystr \<Rightarrow> pystr" where
  "title_from prev [] = []"
| "title_from prev (c # cs) =
     (if 97 \<le> c \<and> c \<le> 122 then (if prev then c else c - 32) # title_from True cs
      else if 65 \<le> c \<and> c \<le> 90 then (if prev then c + 32 else c) # title_from True cs
      else c # title_from False cs)"

definition title :: "pystr \<Rightarrow> pystr" where
  "title s = title_from False s"

fun features_usage :: "dataframe \<Rightarrow> pystr list \<Rightarrow> (pystr \<times> nat) list \<Rightarrow> error + (pystr \<times> nat) list" where
  "features_usage df [] usage = Inr usage"
| "features_usage df (feature # features) usage =
     (case getitem df feature of
        Inl e \<Rightarrow> Inl e
      | Inr vals \<Rightarrow>
          features_usage df features
            (AList.update (title (remove_RN feature)) (length (filter (\<lambda>v. v = Str Sim) vals)) usage))"

definition get_rn_features_usage :: "dataframe \<Rightarrow> error + (pystr \<times> nat) list" where
  "get_rn_features_usage df = features_usage df rn_features []"

text \<open>
  \<open>all_apps.extend(apps_list)\<close> over the cells of a list column: a list gives its
  elements, a text its characters, and a number cannot be iterated.
\<close>

fun extend_all :: "cell list \<Rightarrow> error + pystr list" where
  "extend_all [] = Inr []"
| "extend_all (v # vs) =
     (case (case v of Lst xs \<Rightarrow> Inr xs | Str s \<Rightarrow> Inr (map (\<lambda>c. [c]) s) | _ \<Rightarrow> Inl TypeError) of
        Inl e \<Rightarrow> Inl e
      | Inr xs \<Rightarrow> (case extend_all vs of Inl e \<Rightarrow> Inl e | Inr ys \<Rightarrow> Inr (xs @ ys)))"

definition get_apps_semelhantes_count :: "dataframe \<Rightarrow> error + (pystr \<times> nat) list" where
  "get_apps_semelhantes_count df =
     (case getitem df apps_semelhantes_lista of
        Inl e \<Rightarrow> Inl e
      | Inr vals \<Rightarrow>
          (case extend_all vals of
             Inl e \<Rightarrow> Inl e
           | Inr all_apps \<Rightarrow> Inr (take 10 (value_counts all_apps))))"

definition get_ethical_alerts_count :: "dataframe \<Rightarrow> error + (pystr \<times> nat) list" where
  "get_ethical_alerts_count df =
     (case getitem df alertas_lista of
        Inl e \<Rightarrow> Inl e
      | Inr vals \<Rightarrow>
          (case extend_all vals of
             Inl e \<Rightarrow> Inl e
           | Inr all_alerts \<Rightarrow> if all_alerts = [] then Inr [] else Inr (value_counts all_alerts)))"

text \<open>\<open>sum(1 for feature in features if row[feature] == 'Sim')\<close>.\<close>

fun feature_count :: "row \<Rightarrow> pystr list \<Rightarrow> error + nat" where
  "feature_count r [] = Inr 0"
| "feature_count r (feature # features) =
     (case row_get r feature of
        Inl e \<Rightarrow> Inl e
      | Inr v \<Rightarrow>
          (case feature_count r features of
             Inl e \<Rightarrow> Inl e
           | Inr n \<Rightarrow> Inr ((if v = Str Sim then 1 else 0) + n)))"

record cvf =
  ideia :: cell
  complexidade_cvf :: cell
  recursos_necessarios :: nat
  tem_alertas :: bool

text \<open>\<open>x[:50] + '...' if len(x) > 50 else x\<close>\<close>

fun truncate_ideia :: "cell \<Rightarrow> error + cell" where
  "truncate_ideia (Str s) = Inr (Str (if length s > 50 then take 50 s @ u ''...'' else s))"
| "truncate_ideia (Lst xs) = (if length xs > 50 then Inl TypeError else Inr (Lst xs))"
| "truncate_ideia v = Inl TypeError"

fun py_len :: "cell \<Rightarrow> error + nat" where
  "py_len (Str s) = Inr (length s)"
| "py_len (Lst xs) = Inr (length xs)"
| "py_len v = Inl TypeError"

definition cvf_row :: "row \<Rightarrow> error + cvf" where
  "cvf_row r =
     (case feature_count r rn_features of
        Inl e \<Rightarrow> Inl e
      | Inr n \<Rightarrow>
     (case row_get r ideia_resumo of
        Inl e \<Rightarrow> Inl e
      | Inr x \<Rightarrow>
     (case truncate_ideia x of
        Inl e \<Rightarrow> Inl e
      | Inr i \<Rightarrow>
     (case row_get r Complexidade of
        Inl e \<Rightarrow> Inl e
      | Inr c \<Rightarrow>
     (case row_get r alertas_lista of
        Inl e \<Rightarrow> Inl e
      | Inr a \<Rightarrow>
     (case py_len a of
        Inl e \<Rightarrow> Inl e
      | Inr k \<Rightarrow>
          Inr \<lparr>ideia = i, complexidade_cvf = c, recursos_necessarios = n, tem_alertas = (k > 0)\<rparr>))))))"

fun cvf_rows :: "row list \<Rightarrow> error + cvf list" where
  "cvf_rows [] = Inr []"
| "cvf_rows (r # rs) =
     (case cvf_row r of
        Inl e \<Rightarrow> Inl e
      | Inr x \<Rightarrow> (case cvf_rows rs of Inl e \<Rightarrow> Inl e | Inr xs \<Rightarrow> Inr (x # xs)))"

definition get_complexity_vs_features :: "dataframe \<Rightarrow> error + cvf list" where
  "get_complexity_vs_features df = cvf_rows (rows df)"

subsection \<open>Categories\<close>

definition Redes_Sociais :: pystr where "Redes_Sociais = u ''Redes Sociais''"

definition Educacao :: pystr where "Educacao = u ''Educa'' @ [231, 227] @ u ''o''"

definition Jogos :: pystr where "Jogos = u ''Jogos''"

definition E_commerce :: pystr where "E_commerce = u ''E-commerce''"

definition Saude_Bem_estar :: pystr where "Saude_Bem_estar = u ''Sa'' @ [250] @ u ''de/Bem-estar''"

definition Entretenimento :: pystr where "Entretenimento = u ''Entretenimento''"

definition Produtividade :: pystr where "Produtividade = u ''Produtividade''"

definition Transporte_Localizacao :: pystr where "Transporte_Localizacao = u ''Transporte/Localiza'' @ [231, 227] @ u ''o''"

definition Financas :: pystr where "Financas = u ''Finan'' @ [231] @ u ''as''"

definition Utilitarios :: pystr where "Utilitarios = u ''Utilit'' @ [225] @ u ''rios''"

definition category_keywords :: "(pystr \<times> pystr list) list" where
  "category_keywords =
    [(Redes_Sociais,
        [u ''rede social'',
         u ''relacionamento'',
         u ''social'',
         u ''comunidade'',
         u ''encontros'',
         u ''tinder'',
         u ''cassino social'']),
     (Educacao,
        [u ''aprendizado'',
         u ''educa'' @ [231, 227] @ u ''o'',
         u ''edu'',
         u ''conhecimento'',
         u ''curso'',
         u ''estudo'',
         u ''ensinar'',
         u ''tutorial'',
         u ''aula'',
         u ''roadmap'']),
     (Jogos,
        [u ''jogo'',
         u ''game'',
         u ''divers'' @ [227] @ u ''o'',
         u ''competitivo'',
         u ''ritmo'',
         u ''fases'',
         u ''pr'' @ [234] @ u ''mios'',
         u ''desafios'']),
     (E_commerce,
        [u ''mercadoria'',
         u ''busca'',
         u ''lojista'',
         u ''marketplace'',
         u ''cupons'',
         u ''pre'' @ [231] @ u ''os'',
         u ''fornecedores'']),
     (Saude_Bem_estar,
        [u ''sa'' @ [250] @ u ''de'',
         u ''mental'',
         u ''humor'',
         u ''estresse'',
         u ''rotina'',
         [225] @ u ''gua'',
         u ''medicamentos'',
         u ''consultas'',
         u ''treino'',
         u ''dieta'',
         u ''medita'' @ [231, 227] @ u ''o'',
         u ''bem-estar'',
         u ''cuidado'',
         u ''respira'' @ [231, 227] @ u ''o'']),
     (Entretenimento,
        [u ''youtube'',
         u ''evento'',
         u ''leitura'',
         u ''s'' @ [233] @ u ''ries'',
         u ''mang'' @ [225] @ u ''s'',
         u ''m'' @ [250] @ u ''sica'',
         u ''wallpapers'']),
     (Produtividade,
        [u ''agenda'',
         u ''controle'',
         u ''gest'' @ [227] @ u ''o'',
         u ''tempo'',
         u ''tarefas'',
         u ''organiza'' @ [231, 227] @ u ''o'',
         u ''produtividade'',
         u ''h'' @ [225] @ u ''bitos'',
         u ''rotina di'' @ [225] @ u ''ria'']),
     (Transporte_Localizacao,
        [u ''caronas'',
         u ''transporte'',
         [244] @ u ''nibus'',
         u ''uber'',
         u ''viagens'',
         u ''entregas'',
         u ''localiza'' @ [231, 227] @ u ''o'',
         u ''eventos da cidade'']),
     (Financas,
        [u ''tribut'' @ [225] @ u ''rio'',
         u ''estoque'',
         u ''lucros'',
         u ''dados de bancos'',
         u ''fundos'',
         u ''educa'' @ [231, 227] @ u ''o financeira'',
         u ''doa'' @ [231, 245] @ u ''es'',
         u ''pix''])]"

definition categories_init :: "(pystr \<times> pystr list) list" where
  "categories_init =
     [(Redes_Sociais, []), (Educacao, []), (Jogos, []), (E_commerce, []), (Saude_Bem_estar, []),
      (Entretenimento, []), (Produtividade, []), (Transporte_Localizacao, []), (Financas, []),
      (Utilitarios, [])]"

text \<open>\<open>categories[category].append(x)\<close>, with \<open>KeyError\<close> for a category that is no key.\<close>

definition bucket_append ::
  "(pystr \<times> pystr list) list \<Rightarrow> pystr \<Rightarrow> pystr \<Rightarrow> error + (pystr \<times> pystr list) list" where
  "bucket_append categories category x =
     (case map_of categories category of
        None \<Rightarrow> Inl (KeyError category)
      | Some xs \<Rightarrow> Inr (AList.update category (xs @ [x]) categories))"

text \<open>
  The inner loop over \<open>category_keywords.items()\<close>, which stops at the first category one
  of whose keywords occurs in the lower-cased summary.
\<close>

fun first_category :: "(pystr \<times> pystr list) list \<Rightarrow> pystr \<Rightarrow> pystr option" where
  "first_category [] ideia_l = None"
| "first_category ((category, keywords) # rest) ideia_l =
     (if \<exists>word \<in> set keywords. py_in word ideia_l then Some category
      else first_category rest ideia_l)"

text \<open>
  One pass of the outer loop. \<open>str.lower\<close> is an argument of the model: it is Python's
  own, over all of Unicode.
\<close>

definition categorize_row ::
  "(pystr \<Rightarrow> pystr) \<Rightarrow> (pystr \<times> pystr list) list \<Rightarrow> row \<Rightarrow> error + (pystr \<times> pystr list) list" where
  "categorize_row lower categories r =
     (case row_get r ideia_resumo of
        Inl e \<Rightarrow> Inl e
      | Inr (Str s) \<Rightarrow>
          (case first_category category_keywords (lower s) of
             Some category \<Rightarrow> bucket_append categories category s
           | None \<Rightarrow> bucket_append categories Utilitarios s)
      | Inr _ \<Rightarrow> Inl AttributeError)"

fun categorize_rows ::
  "(pystr \<Rightarrow> pystr) \<Rightarrow> (pystr \<times> pystr list) list \<Rightarrow> row list \<Rightarrow> error + (pystr \<times> pystr list) list" where
  "categorize_rows lower categories [] = Inr categories"
| "categorize_rows lower categories (r # rs) =
     (case categorize_row lower categories r of
        Inl e \<Rightarrow> Inl e
      | Inr categories' \<Rightarrow> categorize_rows lower categories' rs)"

definition get_categories_analysis ::
  "(pystr \<Rightarrow> pystr) \<Rightarrow> dataframe \<Rightarrow> error + (pystr \<times> pystr list) list" where
  "get_categories_analysis lower df = categorize_rows lower categories_init (rows df)"

section \<open>components/filters.py\<close>

text \<open>The dictionary of \<open>create_sidebar_filters\<close>, which always has these four keys.\<close>

record filters =
  complexidade :: pystr
  recursos :: "pystr list"
  com_alertas :: pystr
  busca_texto :: pystr

definition Todos :: pystr where "Todos = u ''Todos''"

definition Apenas_com_alertas :: pystr where "Apenas_com_alertas = u ''Apenas com alertas''"

definition Apenas_sem_alertas :: pystr where "Apenas_sem_alertas = u ''Apenas sem alertas''"

text \<open>\<open>df[p(df[c])]\<close>: the rows whose cell in column \<open>c\<close> satisfies \<open>p\<close>.\<close>

definition select_rows :: "dataframe \<Rightarrow> pystr \<Rightarrow> (cell \<Rightarrow> bool) \<Rightarrow> error + dataframe" where
  "select_rows df c p =
     (case getitem df c of
        Inl e \<Rightarrow> Inl e
      | Inr vals \<Rightarrow> Inr (mask_rows df (map p vals)))"

text \<open>
  \<open>.str.len()\<close> of a cell: the length of a text or of a list, \<open>NaN\<close> (here \<open>None\<close>)
  otherwise; a comparison with \<open>NaN\<close> is false.
\<close>

fun str_len :: "cell \<Rightarrow> nat option" where
  "str_len (Str s) = Some (length s)"
| "str_len (Lst xs) = Some (length xs)"
| "str_len v = None"

definition len_gt0 :: "cell \<Rightarrow> bool" where
  "len_gt0 v = (case str_len v of Some n \<Rightarrow> n > 0 | None \<Rightarrow> False)"

definition len_eq0 :: "cell \<Rightarrow> bool" where
  "len_eq0 v = (case str_len v of Some n \<Rightarrow> n = 0 | None \<Rightarrow> False)"

text \<open>\<open>df[p(df[c].str...)]\<close>: as \<open>select_rows\<close>, through the \<open>.str\<close> accessor.\<close>

definition select_str :: "dataframe \<Rightarrow> pystr \<Rightarrow> (cell \<Rightarrow> bool) \<Rightarrow> error + dataframe" where
  "select_str df c p =
     (case getitem df c of
        Inl e \<Rightarrow> Inl e
      | Inr vals \<Rightarrow>
          (case str_accessor vals of
             Inl e \<Rightarrow> Inl e
           | Inr vs \<Rightarrow> Inr (mask_rows df (map p vs))))"

text \<open>The loop \<open>for recurso in filters['recursos']\<close>.\<close>

fun filter_recursos :: "dataframe \<Rightarrow> pystr list \<Rightarrow> error + dataframe" where
  "filter_recursos df [] = Inr df"
| "filter_recursos df (recurso # rs) =
     (case select_rows df recurso (\<lambda>v. v = Str Sim) of
        Inl e \<Rightarrow> Inl e
      | Inr df' \<Rightarrow> filter_recursos df' rs)"

text \<open>
  \<open>.str.contains(pat, case=False, na=False)\<close>. The method's \<open>regex\<close> parameter is left
  at its default True, so \<open>pat\<close> is compiled as a regular expression with
  \<open>re.IGNORECASE\<close>, and a cell is kept when the compiled pattern is found in it. The
  regular expression library is an argument of the model: \<open>re_compile pat\<close> is the
  exception of \<open>re.compile\<close>, or the predicate \<open>\<lambda>s. pattern.search(s) is not None\<close>.
  A cell that is not a text gives \<open>NaN\<close>, which \<open>na=False\<close> turns into False.
\<close>

fun found_in :: "(pystr \<Rightarrow> bool) \<Rightarrow> cell \<Rightarrow> bool" where
  "found_in search (Str s) = search s"
| "found_in search v = False"

definition str_contains ::
  "(pystr \<Rightarrow> error + (pystr \<Rightarrow> bool)) \<Rightarrow> dataframe \<Rightarrow> pystr \<Rightarrow> pystr \<Rightarrow> error + dataframe" where
  "str_contains re_compile df c pat =
     (case getitem df c of
        Inl e \<Rightarrow> Inl e
      | Inr vals \<Rightarrow>
          (case str_accessor vals of
             Inl e \<Rightarrow> Inl e
           | Inr vs \<Rightarrow>
               (case re_compile pat of
                  Inl e \<Rightarrow> Inl e
                | Inr search \<Rightarrow> Inr (mask_rows df (map (found_in search) vs)))))"

text \<open>\<open>FilterManager.apply_filters\<close>, on the frame the manager holds.\<close>

definition apply_filters ::
  "(pystr \<Rightarrow> error + (pystr \<Rightarrow> bool)) \<Rightarrow> dataframe \<Rightarrow> filters \<Rightarrow> error + dataframe" where
  "apply_filters re_compile df f =
     (case (if complexidade f \<noteq> Todos
            then select_rows df Complexidade (\<lambda>v. v = Str (complexidade f))
            else Inr df) of
        Inl e \<Rightarrow> Inl e
      | Inr df1 \<Rightarrow>
     (case filter_recursos df1 (recursos f) of
        Inl e \<Rightarrow> Inl e
      | Inr df2 \<Rightarrow>
     (case (if com_alertas f = Apenas_com_alertas then select_str df2 Alertas_etico_legais len_gt0
            else if com_alertas f = Apenas_sem_alertas
            then select_str df2 Alertas_etico_legais len_eq0
            else Inr df2) of
        Inl e \<Rightarrow> Inl e
      | Inr df3 \<Rightarrow>
          if busca_texto f \<noteq> [] then str_contains re_compile df3 ideia_resumo (busca_texto f)
          else Inr df3)))"

text \<open>The dictionary of \<open>get_advanced_filters\<close>.\<close>

record advanced_filters =
  min_features :: int
  max_features :: int
  has_similar_apps :: pystr

definition num_features :: pystr where "num_features = u ''num_features''"

definition Com_apps_semelhantes :: pystr where "Com_apps_semelhantes = u ''Com apps semelhantes''"

definition Sem_apps_semelhantes :: pystr where "Sem_apps_semelhantes = u ''Sem apps semelhantes''"

text \<open>\<open>df[rn_features]\<close>: \<open>KeyError\<close> when one of the labels is no column.\<close>

definition getitems :: "dataframe \<Rightarrow> pystr list \<Rightarrow> error + cell list list" where
  "getitems df cs =
     (case filter (\<lambda>c. c \<notin> set (columns df)) cs of
        [] \<Rightarrow> Inr (map (\<lambda>r. map (cell_of r) cs) (rows df))
      | c # _ \<Rightarrow> Inl (KeyError c))"

text \<open>\<open>sum(1 for x in row if x == 'Sim')\<close>\<close>

definition count_sim :: "cell list \<Rightarrow> int" where
  "count_sim vals = int (length (filter (\<lambda>x. x = Str Sim) vals))"

text \<open>\<open>FilterManager.apply_advanced_filters\<close>.\<close>

definition apply_advanced_filters :: "dataframe \<Rightarrow> advanced_filters \<Rightarrow> error + dataframe" where
  "apply_advanced_filters df af =
     (case getitems df rn_features of
        Inl e \<Rightarrow> Inl e
      | Inr feats \<Rightarrow>
          let df1 = set_column df num_features (map (\<lambda>vals. Num (count_sim vals)) feats);
              df2 = mask_rows df1
                      (map (\<lambda>r. case cell_of r num_features of
                                   Num n \<Rightarrow> min_features af \<le> n \<and> n \<le> max_features af
                                 | _ \<Rightarrow> False) (rows df1))
          in
          (case (if has_similar_apps af = Com_apps_semelhantes
                 then select_str df2 apps_semelhantes len_gt0
                 else if has_similar_apps af = Sem_apps_semelhantes
                 then select_str df2 apps_semelhantes len_eq0
                 else Inr df2) of
             Inl e \<Rightarrow> Inl e
           | Inr df3 \<Rightarrow> drop_column df3 num_features))"

section \<open>Frames as read and example data\<close>

text \<open>
  What \<open>pd.read_csv\<close> returns: at least one column, one cell per column in every row,
  and every column either of texts or of numbers. An empty field is read as \<open>NaN\<close>, so no
  text is empty.
\<close>

definition text_column :: "dataframe \<Rightarrow> pystr \<Rightarrow> bool" where
  "text_column df c =
     (\<forall>r \<in> set (rows df). case cell_of r c of NaN \<Rightarrow> True | Str s \<Rightarrow> s \<noteq> [] | _ \<Rightarrow> False)"

definition numeric_column :: "dataframe \<Rightarrow> pystr \<Rightarrow> bool" where
  "numeric_column df c =
     (\<forall>r \<in> set (rows df). case cell_of r c of NaN \<Rightarrow> True | Num n \<Rightarrow> True | _ \<Rightarrow> False)"

definition read_csv_frame :: "dataframe \<Rightarrow> bool" where
  "read_csv_frame df =
     (columns df \<noteq> [] \<and> (\<forall>r \<in> set (rows df). map fst r = columns df)
      \<and> (\<forall>c \<in> set (columns df). text_column df c \<or> numeric_column df c))"

text \<open>The columns of the survey file, and a row of it from its ten fields.\<close>

definition csv_columns :: "pystr list" where
  "csv_columns = [u ''id'', ideia_resumo, apps_semelhantes, RN_camera, RN_maps, RN_notificacoes,
     RN_autenticacao, RN_pagamentos, Complexidade, Alertas_etico_legais]"

definition csv_row :: "cell list \<Rightarrow> row" where
  "csv_row vals = zip csv_columns vals"

definition Nao :: cell where "Nao = Str (u ''N'' @ [227] @ u ''o'')"

definition sem_ideia_frame :: dataframe where
  "sem_ideia_frame = \<lparr>columns = csv_columns, rows = [csv_row [Num 1, Str (u ''Sem ideia''), NaN,
     Nao, Nao, Nao, Nao, Nao, Str (u ''Baixa''), NaN]]\<rparr>"

definition two_ideas_frame :: dataframe where
  "two_ideas_frame = \<lparr>columns = csv_columns, rows =
     [csv_row [Num 1, Str (u ''Ainda indefinido''), NaN,
        Nao, Nao, Nao, Nao, Nao, Str (u ''Baixa''), NaN],
      csv_row [Num 2, Str (u ''App de caronas''), Str (u ''Uber; 99''),
        Nao, Str Sim, Nao, Str Sim, Nao, Str (u ''Alta''), Str (u ''LGPD'')]]\<rparr>"

section \<open>Categories as the specification assigns them\<close>

text \<open>
  The priority order of the nine keyword categories as the specification lists it, and the
  category it assigns to a summary: the first in that order one of whose keywords occurs in
  the lower-cased summary, \<open>Utilitarios\<close> when there is none.
\<close>

definition priority_order :: "pystr list" where
  "priority_order = [Redes_Sociais, Educacao, Jogos, E_commerce, Saude_Bem_estar, Entretenimento,
     Produtividade, Transporte_Localizacao, Financas]"

definition keywords_of :: "pystr \<Rightarrow> pystr list" where
  "keywords_of c = (case map_of category_keywords c of Some ks \<Rightarrow> ks | None \<Rightarrow> [])"

definition category_matches :: "pystr \<Rightarrow> pystr \<Rightarrow> bool" where
  "category_matches ideia_l c = (\<exists>word \<in> set (keywords_of c). py_in word ideia_l)"

definition assigned_category :: "(pystr \<Rightarrow> pystr) \<Rightarrow> pystr \<Rightarrow> pystr" where
  "assigned_category lower s =
     (case find (category_matches (lower s)) priority_order of
        Some c \<Rightarrow> c
      | None \<Rightarrow> Utilitarios)"

definition category_names :: "pystr list" where
  "category_names = priority_order @ [Utilitarios]"

definition summary_of :: "row \<Rightarrow> pystr" where
  "summary_of r = (case cell_of r ideia_resumo of Str s \<Rightarrow> s | _ \<Rightarrow> [])"

definition bucket_of :: "(pystr \<times> pystr list) list \<Rightarrow> pystr \<Rightarrow> pystr list" where
  "bucket_of categories c = (case map_of categories c of Some xs \<Rightarrow> xs | None \<Rightarrow> [])"

text \<open>
  \<open>str.lower\<close> on Latin-1 text, where it works character by character, for the examples.
\<close>

definition lower_char :: "nat \<Rightarrow> nat" where
  "lower_char c = (if (65 \<le> c \<and> c \<le> 90) \<or> (192 \<le> c \<and> c \<le> 222 \<and> c \<noteq> 215) then c + 32 else c)"

definition lower_latin1 :: "pystr \<Rightarrow> pystr" where
  "lower_latin1 s = map lower_char s"

definition three_ideas_frame :: dataframe where
  "three_ideas_frame = \<lparr>columns = csv_columns, rows =
     [csv_row [Num 1, Str (u ''Rede Social de estudo''), Str (u ''Instagram''),
        Str Sim, Nao, Str Sim, Str Sim, Nao, Str (u ''Alta''),
        Str (u ''LGPD (dados pessoais/sens'' @ [237] @ u ''veis)'')],
      csv_row [Num 2, Str (u ''App de caronas''), Str (u ''Uber; 99''),
        Nao, Str Sim, Nao, Str Sim, Nao, Str (u ''Alta''), NaN],
      csv_row [Num 3, Str (u ''Calculadora''), NaN,
        Nao, Nao, Nao, Nao, Nao, Str (u ''Baixa''), NaN]]\<rparr>"

definition three_ideas :: dataframe where
  "three_ideas = load_data (u ''ideias.csv'') (Inr three_ideas_frame)"

text \<open>The keyword test of \<open>first_category\<close> against any table, for its proof.\<close>

definition kw_match :: "(pystr \<times> pystr list) list \<Rightarrow> pystr \<Rightarrow> pystr \<Rightarrow> bool" where
  "kw_match kws x c = (\<exists>w \<in> set (case map_of kws c of Some ks \<Rightarrow> ks | None \<Rightarrow> []). py_in w x)"

section \<open>The criteria of apply_filters as row predicates\<close>

definition keep_complexidade :: "filters \<Rightarrow> row \<Rightarrow> bool" where
  "keep_complexidade f r =
     (complexidade f = Todos \<or> cell_of r Complexidade = Str (complexidade f))"

definition keep_recursos :: "filters \<Rightarrow> row \<Rightarrow> bool" where
  "keep_recursos f r = (\<forall>c \<in> set (recursos f). cell_of r c = Str Sim)"

definition keep_alertas :: "filters \<Rightarrow> row \<Rightarrow> bool" where
  "keep_alertas f r =
     (if com_alertas f = Apenas_com_alertas then len_gt0 (cell_of r Alertas_etico_legais)
      else if com_alertas f = Apenas_sem_alertas then len_eq0 (cell_of r Alertas_etico_legais)
      else True)"

definition keep_busca :: "(pystr \<Rightarrow> bool) \<Rightarrow> filters \<Rightarrow> row \<Rightarrow> bool" where
  "keep_busca search f r = (busca_texto f = [] \<or> found_in search (cell_of r ideia_resumo))"

definition keep_row :: "(pystr \<Rightarrow> bool) \<Rightarrow> filters \<Rightarrow> row \<Rightarrow> bool" where
  "keep_row search f r =
     (keep_complexidade f r \<and> keep_recursos f r \<and> keep_alertas f r \<and> keep_busca search f r)"

definition columns_used :: "filters \<Rightarrow> pystr list" where
  "columns_used f =
     (if complexidade f \<noteq> Todos then [Complexidade] else []) @ recursos f
     @ (if com_alertas f = Apenas_com_alertas \<or> com_alertas f = Apenas_sem_alertas
        then [Alertas_etico_legais] else [])
     @ (if busca_texto f \<noteq> [] then [ideia_resumo] else [])"

section \<open>Cleaned rows and their alerts\<close>

text \<open>
  A row of a cleaned Dataset: summary, similar apps and alerts are texts, and the two list
  columns are what \<open>_clean_data\<close> derives from them.
\<close>

definition normalized_row :: "row \<Rightarrow> bool" where
  "normalized_row r =
     (is_Str (cell_of r ideia_resumo) \<and> is_Str (cell_of r Alertas_etico_legais)
      \<and> is_Str (cell_of r apps_semelhantes)
      \<and> split_list (cell_of r Alertas_etico_legais) = Inr (cell_of r alertas_lista)
      \<and> split_list (cell_of r apps_semelhantes) = Inr (cell_of r apps_semelhantes_lista))"



section \<open>A fragment of Python's regular expressions\<close>

text \<open>
  The patterns this fragment covers are texts without a special character other than the
  dot. With \<open>re.IGNORECASE\<close> an ordinary character matches itself in either case, and the
  dot matches every character but the newline; on Latin-1 text that is what \<open>re\<close> does.
  A pattern that is a single parenthesis, star, plus, question mark, opening bracket or
  backslash does not compile (\<open>re.error\<close>). Every other pattern with a special character is outside the fragment.
\<close>

definition re_special :: "nat list" where
  "re_special = [46, 94, 36, 42, 43, 63, 123, 125, 91, 93, 92, 124, 40, 41]"

definition atom_matches :: "nat \<Rightarrow> nat \<Rightarrow> bool" where
  "atom_matches p c = (if p = 46 then c \<noteq> 10 else lower_char p = lower_char c)"

fun match_here :: "pystr \<Rightarrow> pystr \<Rightarrow> bool" where
  "match_here [] s = True"
| "match_here (p # ps) [] = False"
| "match_here (p # ps) (c # cs) = (atom_matches p c \<and> match_here ps cs)"

fun search_from :: "pystr \<Rightarrow> pystr \<Rightarrow> bool" where
  "search_from pat [] = match_here pat []"
| "search_from pat (c # cs) = (match_here pat (c # cs) \<or> search_from pat cs)"

definition re_fragment :: "pystr \<Rightarrow> error + (pystr \<Rightarrow> bool)" where
  "re_fragment pat =
     (if pat \<in> set [[40], [41], [42], [43], [63], [91], [92]] then Inl ReError
      else if \<exists>c \<in> set pat. c \<noteq> 46 \<and> c \<in> set re_special then Inl NotModelled
      else Inr (search_from pat))"

definition only_busca :: "pystr \<Rightarrow> filters" where
  "only_busca s = \<lparr>complexidade = Todos, recursos = [], com_alertas = Todos, busca_texto = s\<rparr>"

section \<open>The criteria of apply_advanced_filters as row predicates\<close>

text \<open>Every row of a frame has one cell per column, in the order of the columns.\<close>

definition frame_ok :: "dataframe \<Rightarrow> bool" where
  "frame_ok df = (\<forall>r \<in> set (rows df). map fst r = columns df)"

text \<open>The number of feature flags of a record that equal \<open>Sim\<close>.\<close>

definition feature_total :: "row \<Rightarrow> int" where
  "feature_total r = count_sim (map (cell_of r) rn_features)"

definition in_range :: "advanced_filters \<Rightarrow> row \<Rightarrow> bool" where
  "in_range af r = (min_features af \<le> feature_total r \<and> feature_total r \<le> max_features af)"

definition keep_apps :: "advanced_filters \<Rightarrow> row \<Rightarrow> bool" where
  "keep_apps af r =
     (if has_similar_apps af = Com_apps_semelhantes then len_gt0 (cell_of r apps_semelhantes)
      else if has_similar_apps af = Sem_apps_semelhantes then len_eq0 (cell_of r apps_semelhantes)
      else True)"

definition with_count :: "row \<Rightarrow> row" where
  "with_count r = AList.update num_features (Num (feature_total r)) r"

text \<open>The frame with the count column, after the range mask.\<close>

definition counted :: "dataframe \<Rightarrow> advanced_filters \<Rightarrow> dataframe" where
  "counted df af =
     \<lparr>columns = (if num_features \<in> set (columns df) then columns df
                  else columns df @ [num_features]),
      rows = map with_count (filter (in_range af) (rows df))\<rparr>"

text \<open>Six records that need 0, 1, 2, 3, 4 and 5 of the features.\<close>

definition six_ideas_frame :: dataframe where
  "six_ideas_frame = \<lparr>columns = csv_columns, rows =
     [csv_row [Num 1, Str (u ''Projeto 0''), NaN,
        Nao, Nao, Nao, Nao, Nao, Str (u ''Baixa''), NaN],
      csv_row [Num 2, Str (u ''Projeto 1''), NaN,
        Str Sim, Nao, Nao, Nao, Nao, Str (u ''Baixa''), NaN],
      csv_row [Num 3, Str (u ''Projeto 2''), NaN,
        Str Sim, Str Sim, Nao, Nao, Nao, Str (u ''Baixa''), NaN],
      csv_row [Num 4, Str (u ''Projeto 3''), NaN,
        Str Sim, Str Sim, Str Sim, Nao, Nao, Str (u ''Baixa''), NaN],
      csv_row [Num 5, Str (u ''Projeto 4''), NaN,
        Str Sim, Str Sim, Str Sim, Str Sim, Nao, Str (u ''Baixa''), NaN],
      csv_row [Num 6, Str (u ''Projeto 5''), NaN,
        Str Sim, Str Sim, Str Sim, Str Sim, Str Sim, Str (u ''Baixa''), NaN]]\<rparr>"

definition six_ideas :: dataframe where
  "six_ideas = load_data (u ''ideias.csv'') (Inr six_ideas_frame)"

section \<open>Views of a cleaned Dataset\<close>

text \<open>
  A view of a cleaned Dataset: the columns of the survey file and the two derived list
  columns are there, every row has one cell per column, and every row is as
  \<open>_clean_data\<close> leaves it.
\<close>

definition cleaned_columns :: "pystr list" where
  "cleaned_columns = csv_columns @ [apps_semelhantes_lista, alertas_lista]"

definition cleaned_view :: "dataframe \<Rightarrow> bool" where
  "cleaned_view df =
     (frame_ok df \<and> set cleaned_columns \<subseteq> set (columns df)
      \<and> (\<forall>r \<in> set (rows df). normalized_row r))"

definition zero_usage :: "(pystr \<times> nat) list" where
  "zero_usage = [(u ''Camera'', 0), (u ''Maps'', 0), (u ''Notificacoes'', 0),
     (u ''Autenticacao'', 0), (u ''Pagamentos'', 0)]"

text \<open>The view that the filters leave when no record passes.\<close>

definition no_ideas :: dataframe where
  "no_ideas = three_ideas\<lparr>rows := []\<rparr>"

section \<open>What cleaning leaves of a row\<close>

text \<open>
  The list that \<open>_clean_data\<close> derives from a cell of a text column after \<open>fillna('')\<close>.
\<close>

definition derived_list :: "cell \<Rightarrow> cell" where
  "derived_list v = (case split_list v of Inr w \<Rightarrow> w | Inl e \<Rightarrow> Lst [])"

definition fill_row :: "row \<Rightarrow> row" where
  "fill_row r = map (\<lambda>kv. (fst kv, fill_cell (snd kv))) r"

definition with_lists :: "row \<Rightarrow> row" where
  "with_lists r =
     AList.update alertas_lista (derived_list (cell_of r Alertas_etico_legais))
       (AList.update apps_semelhantes_lista (derived_list (cell_of r apps_semelhantes)) r)"

text \<open>The rows that cleaning keeps, filled.\<close>

definition kept_rows :: "dataframe \<Rightarrow> row list" where
  "kept_rows df =
     map fill_row (filter (\<lambda>r. \<not> contains_sentinel (cell_of r ideia_resumo))
       (filter (\<lambda>r. cell_of r ideia_resumo \<noteq> NaN) (rows df)))"

section \<open>Properties of loading and cleaning\<close>

lemmas names = ideia_resumo_def apps_semelhantes_def Alertas_etico_legais_def
  apps_semelhantes_lista_def alertas_lista_def Complexidade_def RN_camera_def RN_maps_def
  RN_notificacoes_def RN_autenticacao_def RN_pagamentos_def csv_columns_def csv_row_def u_def
  Sim_def Nao_def

lemma mask_filter: "map fst (filter snd (zip xs (map p xs))) = filter p xs"
  by (induction xs) auto

lemma apply_cells_length: "apply_cells f vs = Inr ws \<Longrightarrow> length ws = length vs"
  by (induction vs arbitrary: ws) (auto split: sum.splits)

lemma cell_of_update: "c \<noteq> d \<Longrightarrow> cell_of (AList.update d v r) c = cell_of r c"
  by (simp add: cell_of_def update_conv')

lemma cell_of_update_same: "cell_of (AList.update d v r) d = v"
  by (simp add: cell_of_def update_conv')

lemma set_column_rows_cell:
  assumes "r' \<in> set (rows (set_column df d vals))" and "c \<noteq> d"
  shows "\<exists>r \<in> set (rows df). cell_of r' c = cell_of r c"
proof -
  from assms(1) obtain r v where "(r, v) \<in> set (zip (rows df) vals)" and "r' = AList.update d v r"
    by (auto simp: set_column_def)
  then have "r \<in> set (rows df)"
    by (auto dest: set_zip_leftD)
  moreover have "cell_of r' c = cell_of r c"
    unfolding \<open>r' = AList.update d v r\<close> by (rule cell_of_update[OF assms(2)])
  ultimately show ?thesis by blast
qed

lemma derive_column_cell:
  assumes "derive_column df src dst = Inr df'" and "r' \<in> set (rows df')" and "c \<noteq> dst"
  shows "\<exists>r \<in> set (rows df). cell_of r' c = cell_of r c"
  using assms by (auto simp: derive_column_def split: sum.splits dest: set_column_rows_cell)

lemma map_of_fill:
  "map_of (map (\<lambda>kv. (fst kv, fill_cell (snd kv))) r) c = map_option fill_cell (map_of r c)"
  by (induction r) auto

lemma cell_of_fill:
  "cell_of r c \<noteq> NaN \<Longrightarrow>
   cell_of (map (\<lambda>kv. (fst kv, fill_cell (snd kv))) r) c = fill_cell (cell_of r c)"
  by (auto simp: cell_of_def map_of_fill split: option.splits)

text \<open>
  A row that survives cleaning comes from a row as read whose summary is not missing and
  holds no sentinel, and it has that summary.
\<close>

lemma clean_data_summary:
  assumes "clean_data df = Inr df'" and "\<not> df_empty df" and "r' \<in> set (rows df')"
  shows "\<exists>r \<in> set (rows df). cell_of r ideia_resumo \<noteq> NaN
            \<and> \<not> contains_sentinel (cell_of r ideia_resumo)
            \<and> cell_of r' ideia_resumo = fill_cell (cell_of r ideia_resumo)"
proof -
  define df1 where "df1 = df\<lparr>rows := filter (\<lambda>r. cell_of r ideia_resumo \<noteq> NaN) (rows df)\<rparr>"
  define df3 where "df3 = fillna (mask_rows df1
      (map (\<lambda>r. \<not> contains_sentinel (cell_of r ideia_resumo)) (rows df1)))"
  from assms(1,2) obtain df4 where
    d4: "derive_column df3 apps_semelhantes apps_semelhantes_lista = Inr df4" and
    d5: "derive_column df4 Alertas_etico_legais alertas_lista = Inr df'"
    by (auto simp: clean_data_def Let_def df1_def df3_def split: sum.splits if_splits)
  have ne: "ideia_resumo \<noteq> alertas_lista" "ideia_resumo \<noteq> apps_semelhantes_lista"
    by (simp_all add: ideia_resumo_def alertas_lista_def apps_semelhantes_lista_def u_def)
  from derive_column_cell[OF d5 assms(3) ne(1)] obtain r4 where
    r4: "r4 \<in> set (rows df4)" "cell_of r' ideia_resumo = cell_of r4 ideia_resumo" by blast
  from derive_column_cell[OF d4 r4(1) ne(2)] obtain r3 where
    r3: "r3 \<in> set (rows df3)" "cell_of r4 ideia_resumo = cell_of r3 ideia_resumo" by blast
  from r3(1) obtain r where
    r: "r \<in> set (rows df)" "cell_of r ideia_resumo \<noteq> NaN"
       "\<not> contains_sentinel (cell_of r ideia_resumo)"
       "r3 = map (\<lambda>kv. (fst kv, fill_cell (snd kv))) r"
    by (auto simp: df3_def fillna_def mask_rows_def mask_filter df1_def)
  show ?thesis using r r3(2) r4(2) by (auto simp: cell_of_fill)
qed

text \<open>A summary column of numbers has no \<open>.str\<close> accessor: cleaning raises.\<close>

lemma clean_data_numeric:
  assumes "numeric_column df ideia_resumo" and "\<not> df_empty df"
  shows "\<exists>e. clean_data df = Inl e"
proof (cases "ideia_resumo \<in> set (columns df)")
  case False
  then show ?thesis using assms(2) by (simp add: clean_data_def getitem_def)
next
  case True
  have "\<not> is_object (cell_of r ideia_resumo)" if "r \<in> set (rows df)" for r
    using assms(1) that by (cases "cell_of r ideia_resumo") (auto simp: numeric_column_def)
  moreover have "rows df \<noteq> []" using assms(2) by (simp add: df_empty_def)
  ultimately have "str_accessor (map (\<lambda>r. cell_of r ideia_resumo) (rows df)) = Inl AttributeError"
    by (auto simp: str_accessor_def)
  then show ?thesis using assms(2) True by (simp add: clean_data_def getitem_def)
qed

lemma sem_ideia_empty: "rows (load_data (u ''ideias.csv'') (Inr sem_ideia_frame)) = []"
  by (simp add: load_data_def clean_data_def sem_ideia_frame_def names df_empty_def getitem_def
      str_accessor_def cell_of_def mask_rows_def fillna_def derive_column_def set_column_def Let_def)

text \<open>
  C3. Whatever \<open>read_csv\<close> returned or raised, every record of the loaded and cleaned
  Dataset has a summary that is a text, is not empty and contains neither \<open>Sem ideia\<close> nor
  \<open>indefinido\<close>; and the Dataset read from a file whose only record has the summary
  \<open>Sem ideia\<close> has no record.
\<close>

theorem normalized_summary:
  "((case rc of Inl e \<Rightarrow> True | Inr df \<Rightarrow> read_csv_frame df) \<longrightarrow>
      (\<forall>r \<in> set (rows (load_data p rc)). \<exists>s. cell_of r ideia_resumo = Str s \<and> s \<noteq> []
          \<and> \<not> py_in (u ''Sem ideia'') s \<and> \<not> py_in (u ''indefinido'') s))
   \<and> rows (load_data (u ''ideias.csv'') (Inr sem_ideia_frame)) = []"
proof (intro conjI impI ballI)
  fix r
  assume ok: "case rc of Inl e \<Rightarrow> True | Inr df \<Rightarrow> read_csv_frame df"
    and r: "r \<in> set (rows (load_data p rc))"
  from r obtain df df' where rc: "rc = Inr df" and cd: "clean_data df = Inr df'"
    and r': "r \<in> set (rows df')"
    by (auto simp: load_data_def empty_frame_def split: if_splits sum.splits)
  from ok rc have csv: "read_csv_frame df" by simp
  have ne: "\<not> df_empty df"
  proof
    assume "df_empty df"
    with csv have "rows df = []" by (simp add: df_empty_def read_csv_frame_def)
    with cd \<open>df_empty df\<close> r' show False by (simp add: clean_data_def)
  qed
  from cd ne have "ideia_resumo \<in> set (columns df)"
    by (auto simp: clean_data_def getitem_def split: if_splits)
  with csv have "text_column df ideia_resumo \<or> numeric_column df ideia_resumo"
    by (simp add: read_csv_frame_def)
  with clean_data_numeric[OF _ ne] cd have tcol: "text_column df ideia_resumo" by auto
  from clean_data_summary[OF cd ne r'] obtain r0 where r0: "r0 \<in> set (rows df)"
    "cell_of r0 ideia_resumo \<noteq> NaN" "\<not> contains_sentinel (cell_of r0 ideia_resumo)"
    "cell_of r ideia_resumo = fill_cell (cell_of r0 ideia_resumo)" by blast
  from tcol r0(1,2) obtain s where s: "cell_of r0 ideia_resumo = Str s" "s \<noteq> []"
    by (cases "cell_of r0 ideia_resumo") (auto simp: text_column_def)
  with r0(3,4) show "\<exists>s. cell_of r ideia_resumo = Str s \<and> s \<noteq> []
          \<and> \<not> py_in (u ''Sem ideia'') s \<and> \<not> py_in (u ''indefinido'') s"
    by simp
next
  show "rows (load_data (u ''ideias.csv'') (Inr sem_ideia_frame)) = []"
    by (rule sem_ideia_empty)
qed

lemma two_ideas_read: "read_csv_frame two_ideas_frame"
  by (simp add: read_csv_frame_def two_ideas_frame_def text_column_def numeric_column_def
      cell_of_def names)

lemma two_ideas_loaded:
  "map (\<lambda>r. cell_of r ideia_resumo) (rows (load_data (u ''ideias.csv'') (Inr two_ideas_frame)))
     = [Str (u ''App de caronas'')]"
  by (simp add: load_data_def clean_data_def two_ideas_frame_def names df_empty_def getitem_def
      str_accessor_def cell_of_def mask_rows_def fillna_def derive_column_def set_column_def Let_def
      strip_def py_isspace_def)

theorem normalized_summary_witness:
  "read_csv_frame two_ideas_frame
   \<and> rows (load_data (u ''ideias.csv'') (Inr two_ideas_frame)) \<noteq> []
   \<and> (\<exists>s. cell_of (hd (rows (load_data (u ''ideias.csv'') (Inr two_ideas_frame)))) ideia_resumo
            = Str s \<and> s \<noteq> []
          \<and> \<not> py_in (u ''Sem ideia'') s \<and> \<not> py_in (u ''indefinido'') s)"
proof -
  have nonempty: "rows (load_data (u ''ideias.csv'') (Inr two_ideas_frame)) \<noteq> []"
    using two_ideas_loaded by auto
  then have "hd (rows (load_data (u ''ideias.csv'') (Inr two_ideas_frame)))
      \<in> set (rows (load_data (u ''ideias.csv'') (Inr two_ideas_frame)))"
    by simp
  with normalized_summary[of "Inr two_ideas_frame" "u ''ideias.csv''"] two_ideas_read
  have "\<exists>s. cell_of (hd (rows (load_data (u ''ideias.csv'') (Inr two_ideas_frame)))) ideia_resumo
            = Str s \<and> s \<noteq> []
          \<and> \<not> py_in (u ''Sem ideia'') s \<and> \<not> py_in (u ''indefinido'') s"
    by simp
  with nonempty two_ideas_read show ?thesis by blast
qed

section \<open>Categories: the buckets partition the view\<close>

lemmas cat_names = Redes_Sociais_def Educacao_def Jogos_def E_commerce_def Saude_Bem_estar_def
  Entretenimento_def Produtividade_def Transporte_Localizacao_def Financas_def Utilitarios_def

lemma keys_category_keywords: "map fst category_keywords = priority_order"
  by (simp add: category_keywords_def priority_order_def)

lemma distinct_names: "distinct category_names"
  by (simp add: category_names_def priority_order_def cat_names u_def)

lemma keys_categories_init: "categories_init = map (\<lambda>c. (c, [])) category_names"
  by (simp add: categories_init_def priority_order_def category_names_def)

lemma first_category_find:
  "distinct (map fst kws) \<Longrightarrow> first_category kws x = find (kw_match kws x) (map fst kws)"
proof (induction kws)
  case Nil
  then show ?case by simp
next
  case (Cons a kws)
  obtain c ks where a: "a = (c, ks)" by (cases a)
  from Cons.prems a have notin: "c \<notin> set (map fst kws)" and d: "distinct (map fst kws)"
    by simp_all
  have here: "kw_match (a # kws) x c = (\<exists>w \<in> set ks. py_in w x)"
    by (simp add: kw_match_def a)
  have "kw_match (a # kws) x c' = kw_match kws x c'" if "c' \<in> set (map fst kws)" for c'
    using that notin by (auto simp: kw_match_def a)
  then have rest: "find (kw_match (a # kws) x) (map fst kws) = find (kw_match kws x) (map fst kws)"
    by (intro find_cong) auto
  have "first_category (a # kws) x =
      (if \<exists>w \<in> set ks. py_in w x then Some c else first_category kws x)"
    by (simp add: a)
  also have "\<dots> = (if kw_match (a # kws) x c then Some c else find (kw_match (a # kws) x) (map fst kws))"
    by (simp only: here rest Cons.IH[OF d])
  also have "\<dots> = find (kw_match (a # kws) x) (map fst (a # kws))"
    by (simp add: a)
  finally show ?case .
qed

lemma first_category_assigned:
  "(case first_category category_keywords (lower s) of Some c \<Rightarrow> c | None \<Rightarrow> Utilitarios)
     = assigned_category lower s"
proof -
  have "distinct (map fst category_keywords)"
    using distinct_names by (simp add: keys_category_keywords category_names_def)
  from first_category_find[OF this]
  have "first_category category_keywords (lower s)
      = find (kw_match category_keywords (lower s)) priority_order"
    by (simp only: keys_category_keywords)
  moreover have "kw_match category_keywords (lower s) = category_matches (lower s)"
    by (rule ext) (simp only: kw_match_def keywords_of_def category_matches_def)
  ultimately show ?thesis
    by (simp only: assigned_category_def)
qed

lemma assigned_in_names: "assigned_category lower s \<in> set category_names"
proof (cases "find (category_matches (lower s)) priority_order")
  case None
  then show ?thesis by (simp add: assigned_category_def category_names_def)
next
  case (Some c)
  then have "c \<in> set priority_order" by (auto simp: find_Some_iff)
  with Some show ?thesis by (simp add: assigned_category_def category_names_def)
qed

lemma map_of_names: "c \<in> set cs \<Longrightarrow> map_of (map (\<lambda>c. (c, B c)) cs) c = Some (B c)"
  by (induction cs) auto

lemma update_names:
  "distinct cs \<Longrightarrow> a \<in> set cs \<Longrightarrow>
   AList.update a v (map (\<lambda>c. (c, B c)) cs) = map (\<lambda>c. (c, if c = a then v else B c)) cs"
  by (induction cs) auto

lemma bucket_append_names:
  "distinct cs \<Longrightarrow> a \<in> set cs \<Longrightarrow>
   bucket_append (map (\<lambda>c. (c, B c)) cs) a x
     = Inr (map (\<lambda>c. (c, if c = a then B c @ [x] else B c)) cs)"
  by (simp add: bucket_append_def map_of_names update_names)

lemma categorize_row_names:
  assumes "row_get r ideia_resumo = Inr (Str s)"
  shows "categorize_row lower (map (\<lambda>c. (c, B c)) category_names) r
     = Inr (map (\<lambda>c. (c, if c = assigned_category lower s then B c @ [s] else B c))
              category_names)"
proof -
  have "categorize_row lower (map (\<lambda>c. (c, B c)) category_names) r
      = bucket_append (map (\<lambda>c. (c, B c)) category_names)
          (case first_category category_keywords (lower s) of Some c \<Rightarrow> c | None \<Rightarrow> Utilitarios) s"
    using assms by (simp add: categorize_row_def split: option.splits)
  then show ?thesis
    by (simp only: first_category_assigned bucket_append_names[OF distinct_names assigned_in_names])
qed

lemma summary_of_get: "row_get r ideia_resumo = Inr (Str s) \<Longrightarrow> summary_of r = s"
  by (auto simp: row_get_def summary_of_def cell_of_def split: option.splits)

lemma categorize_rows_names:
  assumes "\<forall>r \<in> set rs. \<exists>s. row_get r ideia_resumo = Inr (Str s)"
  shows "categorize_rows lower (map (\<lambda>c. (c, B c)) category_names) rs
     = Inr (map (\<lambda>c. (c, B c @ filter (\<lambda>s. assigned_category lower s = c) (map summary_of rs)))
              category_names)"
  using assms
proof (induction rs arbitrary: B)
  case Nil
  then show ?case by simp
next
  case (Cons r rs)
  then obtain s where s: "row_get r ideia_resumo = Inr (Str s)" by auto
  from Cons.prems have rest: "\<forall>r \<in> set rs. \<exists>s. row_get r ideia_resumo = Inr (Str s)" by simp
  have "categorize_rows lower (map (\<lambda>c. (c, B c)) category_names) (r # rs)
      = categorize_rows lower
          (map (\<lambda>c. (c, if c = assigned_category lower s then B c @ [s] else B c)) category_names) rs"
    by (simp add: categorize_row_names[OF s])
  also have "\<dots> = Inr (map (\<lambda>c. (c, (if c = assigned_category lower s then B c @ [s] else B c)
         @ filter (\<lambda>s. assigned_category lower s = c) (map summary_of rs))) category_names)"
    by (rule Cons.IH[OF rest])
  also have "\<dots> = Inr (map (\<lambda>c. (c, B c @ filter (\<lambda>s. assigned_category lower s = c)
         (map summary_of (r # rs)))) category_names)"
    by (auto simp: summary_of_get[OF s])
  finally show ?case .
qed

lemma mset_buckets:
  "distinct cs \<Longrightarrow>
   mset (concat (map (\<lambda>c. filter (\<lambda>x. f x = c) xs) cs)) = mset (filter (\<lambda>x. f x \<in> set cs) xs)"
proof (induction cs)
  case Nil
  then show ?case by simp
next
  case (Cons c cs)
  then have "c \<notin> set cs" by simp
  then have "mset (filter (\<lambda>x. f x = c) xs) + mset (filter (\<lambda>x. f x \<in> set cs) xs)
      = mset (filter (\<lambda>x. f x \<in> set (c # cs)) xs)"
    by (induction xs) auto
  with Cons show ?case by simp
qed

lemmas load_defs = load_data_def clean_data_def df_empty_def getitem_def
  str_accessor_def cell_of_def mask_rows_def fillna_def derive_column_def set_column_def Let_def
  strip_def py_isspace_def

lemma three_ideas_rows:
  "rows three_ideas =
    [[(u ''id'', Num 1), (ideia_resumo, Str (u ''Rede Social de estudo'')),
      (apps_semelhantes, Str (u ''Instagram'')), (RN_camera, Str Sim), (RN_maps, Nao),
      (RN_notificacoes, Str Sim), (RN_autenticacao, Str Sim), (RN_pagamentos, Nao),
      (Complexidade, Str (u ''Alta'')),
      (Alertas_etico_legais, Str (u ''LGPD (dados pessoais/sens'' @ [237] @ u ''veis)'')),
      (apps_semelhantes_lista, Lst [u ''Instagram'']),
      (alertas_lista, Lst [u ''LGPD (dados pessoais/sens'' @ [237] @ u ''veis)''])],
     [(u ''id'', Num 2), (ideia_resumo, Str (u ''App de caronas'')),
      (apps_semelhantes, Str (u ''Uber; 99'')), (RN_camera, Nao), (RN_maps, Str Sim),
      (RN_notificacoes, Nao), (RN_autenticacao, Str Sim), (RN_pagamentos, Nao),
      (Complexidade, Str (u ''Alta'')), (Alertas_etico_legais, Str []),
      (apps_semelhantes_lista, Lst [u ''Uber'', u ''99'']), (alertas_lista, Lst [])],
     [(u ''id'', Num 3), (ideia_resumo, Str (u ''Calculadora'')),
      (apps_semelhantes, Str []), (RN_camera, Nao), (RN_maps, Nao),
      (RN_notificacoes, Nao), (RN_autenticacao, Nao), (RN_pagamentos, Nao),
      (Complexidade, Str (u ''Baixa'')), (Alertas_etico_legais, Str []),
      (apps_semelhantes_lista, Lst []), (alertas_lista, Lst [])]]"
  by (simp add: three_ideas_def three_ideas_frame_def load_defs names)

lemma three_ideas_columns:
  "columns three_ideas = csv_columns @ [apps_semelhantes_lista, alertas_lista]"
  by (simp add: three_ideas_def three_ideas_frame_def load_defs names)

lemma assigned_examples:
  "assigned_category lower_latin1 (u ''Rede Social de estudo'') = Redes_Sociais"
  "assigned_category lower_latin1 (u ''App de caronas'') = Transporte_Localizacao"
  "assigned_category lower_latin1 (u ''Calculadora'') = Utilitarios"
  by (simp_all add: assigned_category_def category_matches_def keywords_of_def
      category_keywords_def priority_order_def lower_latin1_def lower_char_def cat_names u_def)

lemma bucket_of_names:
  "c \<in> set cs \<Longrightarrow> bucket_of (map (\<lambda>c. (c, B c)) cs) c = B c"
  by (simp add: bucket_of_def map_of_names)

text \<open>
  C1. On a view whose summaries are texts, \<open>get_categories_analysis\<close> returns the ten
  buckets; the keyword table is in the fixed priority order; the bucket of a category holds,
  in the order of the view, the summaries whose first matching category (or
  \<open>Utilitarios\<close>, when no keyword matches) it is; all buckets together hold the
  summaries of the view, each as often as the view does; and every summary is in exactly one
  bucket.
\<close>

theorem categories_partition:
  assumes "\<forall>r \<in> set (rows df). \<exists>s. row_get r ideia_resumo = Inr (Str s)"
  shows "\<exists>cats. get_categories_analysis lower df = Inr cats
     \<and> map fst cats = category_names
     \<and> map fst category_keywords = priority_order
     \<and> (\<forall>c \<in> set category_names.
           bucket_of cats c = filter (\<lambda>s. assigned_category lower s = c) (map summary_of (rows df)))
     \<and> mset (concat (map snd cats)) = mset (map summary_of (rows df))
     \<and> (\<forall>s \<in> set (map summary_of (rows df)).
           \<exists>!c. c \<in> set category_names \<and> s \<in> set (bucket_of cats c))"
proof -
  define A where "A = assigned_category lower"
  define xs where "xs = map summary_of (rows df)"
  define cats where "cats = map (\<lambda>c. (c, filter (\<lambda>s. A s = c) xs)) category_names"
  have run: "get_categories_analysis lower df = Inr cats"
    using categorize_rows_names[OF assms, of lower "\<lambda>c. []"]
    by (simp add: get_categories_analysis_def keys_categories_init cats_def A_def xs_def)
  have keys: "map fst cats = category_names"
    by (simp add: cats_def comp_def)
  have bucket: "bucket_of cats c = filter (\<lambda>s. A s = c) xs" if "c \<in> set category_names" for c
    unfolding cats_def by (rule bucket_of_names[OF that])
  have inn: "A s \<in> set category_names" for s
    unfolding A_def by (rule assigned_in_names)
  have "mset (concat (map snd cats)) = mset (filter (\<lambda>x. A x \<in> set category_names) xs)"
    using mset_buckets[OF distinct_names, of A xs] by (simp add: cats_def comp_def)
  then have union: "mset (concat (map snd cats)) = mset xs"
    by (simp add: inn)
  have one: "\<exists>!c. c \<in> set category_names \<and> s \<in> set (bucket_of cats c)" if "s \<in> set xs" for s
  proof (rule ex1I[of _ "A s"])
    show "A s \<in> set category_names \<and> s \<in> set (bucket_of cats (A s))"
      using that by (simp add: inn bucket[OF inn])
  next
    fix c
    assume "c \<in> set category_names \<and> s \<in> set (bucket_of cats c)"
    then show "c = A s" by (auto simp: bucket)
  qed
  show ?thesis
    using run keys keys_category_keywords bucket union one
    unfolding A_def xs_def by blast
qed

lemma three_ideas_texts:
  "\<forall>r \<in> set (rows three_ideas). \<exists>s. row_get r ideia_resumo = Inr (Str s)"
  by (simp add: three_ideas_rows row_get_def ideia_resumo_def u_def)

lemma three_ideas_summaries:
  "map summary_of (rows three_ideas)
     = [u ''Rede Social de estudo'', u ''App de caronas'', u ''Calculadora'']"
  by (simp add: three_ideas_rows summary_of_def cell_of_def ideia_resumo_def u_def)

lemma names_differ:
  "Redes_Sociais \<noteq> Transporte_Localizacao" "Redes_Sociais \<noteq> Utilitarios"
  "Transporte_Localizacao \<noteq> Utilitarios" "Educacao \<noteq> Redes_Sociais"
  "Educacao \<noteq> Transporte_Localizacao" "Educacao \<noteq> Utilitarios"
  by (simp_all add: cat_names u_def)

lemma names_member:
  "Redes_Sociais \<in> set category_names" "Educacao \<in> set category_names"
  "Transporte_Localizacao \<in> set category_names" "Utilitarios \<in> set category_names"
  by (simp_all add: category_names_def priority_order_def)

theorem categories_partition_witness:
  "\<exists>cats. get_categories_analysis lower_latin1 three_ideas = Inr cats
     \<and> bucket_of cats Redes_Sociais = [u ''Rede Social de estudo'']
     \<and> bucket_of cats Educacao = []
     \<and> bucket_of cats Transporte_Localizacao = [u ''App de caronas'']
     \<and> bucket_of cats Utilitarios = [u ''Calculadora'']
     \<and> mset (concat (map snd cats))
         = {#u ''Rede Social de estudo'', u ''App de caronas'', u ''Calculadora''#}"
proof -
  from categories_partition[OF three_ideas_texts, of lower_latin1]
  obtain cats where run: "get_categories_analysis lower_latin1 three_ideas = Inr cats"
    and bucket: "\<forall>c \<in> set category_names. bucket_of cats c
        = filter (\<lambda>s. assigned_category lower_latin1 s = c) (map summary_of (rows three_ideas))"
    and union: "mset (concat (map snd cats)) = mset (map summary_of (rows three_ideas))"
    by blast
  have "bucket_of cats Redes_Sociais = [u ''Rede Social de estudo'']"
    "bucket_of cats Educacao = []"
    "bucket_of cats Transporte_Localizacao = [u ''App de caronas'']"
    "bucket_of cats Utilitarios = [u ''Calculadora'']"
    using names_differ names_differ[symmetric]
    by (simp_all only: bucket[rule_format, OF names_member(1)] bucket[rule_format, OF names_member(2)]
        bucket[rule_format, OF names_member(3)] bucket[rule_format, OF names_member(4)]
        three_ideas_summaries assigned_examples filter.simps if_True if_False refl simp_thms)
  moreover have "mset (concat (map snd cats))
         = {#u ''Rede Social de estudo'', u ''App de caronas'', u ''Calculadora''#}"
    by (simp only: union three_ideas_summaries mset.simps add_mset_commute)
  ultimately show ?thesis using run by blast
qed

section \<open>Row filters\<close>

lemma mask_rows_comp:
  "mask_rows df (map (p \<circ> (\<lambda>r. cell_of r c)) (rows df))
     = df\<lparr>rows := filter (\<lambda>r. p (cell_of r c)) (rows df)\<rparr>"
proof -
  have "map (p \<circ> (\<lambda>r. cell_of r c)) (rows df) = map (\<lambda>r. p (cell_of r c)) (rows df)"
    by simp
  then show ?thesis by (simp only: mask_rows_def mask_filter)
qed

lemma mask_rows_map:
  "mask_rows df (map p (map (\<lambda>r. cell_of r c) (rows df)))
     = df\<lparr>rows := filter (\<lambda>r. p (cell_of r c)) (rows df)\<rparr>"
  by (simp only: map_map mask_rows_comp)

lemma select_rows_eq:
  "select_rows df c p =
     (if c \<in> set (columns df) then Inr (df\<lparr>rows := filter (\<lambda>r. p (cell_of r c)) (rows df)\<rparr>)
      else Inl (KeyError c))"
  by (simp add: select_rows_def getitem_def mask_rows_comp)

lemma select_str_Inr:
  "select_str df c p = Inr df' \<Longrightarrow>
   c \<in> set (columns df) \<and> df' = df\<lparr>rows := filter (\<lambda>r. p (cell_of r c)) (rows df)\<rparr>"
  by (auto simp: select_str_def getitem_def str_accessor_def mask_rows_comp
      split: if_splits sum.splits)

lemma str_contains_Inr:
  "str_contains re df c pat = Inr df' \<Longrightarrow>
   c \<in> set (columns df) \<and>
   (\<exists>search. re pat = Inr search
      \<and> df' = df\<lparr>rows := filter (\<lambda>r. found_in search (cell_of r c)) (rows df)\<rparr>)"
  by (auto simp: str_contains_def getitem_def str_accessor_def mask_rows_comp
      split: if_splits sum.splits)

lemma filter_recursos_Inr:
  "filter_recursos df cs = Inr df' \<Longrightarrow>
   set cs \<subseteq> set (columns df)
   \<and> df' = df\<lparr>rows := filter (\<lambda>r. \<forall>c \<in> set cs. cell_of r c = Str Sim) (rows df)\<rparr>"
proof (induction cs arbitrary: df)
  case Nil
  then show ?case by simp
next
  case (Cons c cs)
  from Cons.prems have c: "c \<in> set (columns df)"
    and rest: "filter_recursos (df\<lparr>rows := filter (\<lambda>r. cell_of r c = Str Sim) (rows df)\<rparr>) cs = Inr df'"
    by (auto simp: select_rows_eq split: if_splits)
  from Cons.IH[OF rest] c show ?case
    by (auto intro!: arg_cong[where f="\<lambda>x. df\<lparr>rows := x\<rparr>"] filter_cong)
qed

text \<open>Stages that keep every row leave the frame as it is.\<close>

lemma rows_all: "\<forall>r \<in> set (rows df). P r \<Longrightarrow> df\<lparr>rows := filter P (rows df)\<rparr> = df"
  by (simp add: filter_id_conv[THEN iffD2])

lemma select_rows_all:
  "c \<in> set (columns df) \<Longrightarrow> \<forall>r \<in> set (rows df). p (cell_of r c) \<Longrightarrow> select_rows df c p = Inr df"
  by (simp add: select_rows_eq rows_all)

lemma accessor_all:
  assumes "\<forall>r \<in> set (rows df). is_object (cell_of r c)"
  shows "str_accessor (map (\<lambda>r. cell_of r c) (rows df)) = Inr (map (\<lambda>r. cell_of r c) (rows df))"
proof (cases "rows df")
  case Nil
  then show ?thesis by (simp add: str_accessor_def)
next
  case (Cons r rs)
  with assms have "is_object (cell_of r c)" by simp
  with Cons show ?thesis by (auto simp: str_accessor_def)
qed

lemma select_str_eq:
  assumes "c \<in> set (columns df)" and "\<forall>r \<in> set (rows df). is_object (cell_of r c)"
  shows "select_str df c p = Inr (df\<lparr>rows := filter (\<lambda>r. p (cell_of r c)) (rows df)\<rparr>)"
  using assms(1) by (simp add: select_str_def getitem_def accessor_all[OF assms(2)] mask_rows_comp)

lemma str_contains_eq:
  assumes "c \<in> set (columns df)" and "\<forall>r \<in> set (rows df). is_object (cell_of r c)"
    and "re pat = Inr search"
  shows "str_contains re df c pat
     = Inr (df\<lparr>rows := filter (\<lambda>r. found_in search (cell_of r c)) (rows df)\<rparr>)"
  using assms(1,3)
  by (simp add: str_contains_def getitem_def accessor_all[OF assms(2)] mask_rows_comp)

lemma filter_recursos_eq:
  "set cs \<subseteq> set (columns df) \<Longrightarrow>
   filter_recursos df cs
     = Inr (df\<lparr>rows := filter (\<lambda>r. \<forall>c \<in> set cs. cell_of r c = Str Sim) (rows df)\<rparr>)"
proof (induction cs arbitrary: df)
  case Nil
  then show ?case by simp
next
  case (Cons c cs)
  let ?d = "df\<lparr>rows := filter (\<lambda>r. cell_of r c = Str Sim) (rows df)\<rparr>"
  from Cons.prems have "set cs \<subseteq> set (columns ?d)" by simp
  from Cons.IH[OF this] Cons.prems show ?case
    by (auto simp: select_rows_eq intro!: arg_cong[where f="\<lambda>x. df\<lparr>rows := x\<rparr>"] filter_cong)
qed

lemma len_object: "len_gt0 v \<Longrightarrow> is_object v" "len_eq0 v \<Longrightarrow> is_object v"
  by (cases v; simp add: len_gt0_def len_eq0_def)+

lemma found_object: "found_in search v \<Longrightarrow> is_object v"
  by (cases v) simp_all

section \<open>What apply_filters keeps\<close>

lemma keep_complexidade_fun:
  "complexidade f \<noteq> Todos \<Longrightarrow>
     keep_complexidade f = (\<lambda>r. cell_of r Complexidade = Str (complexidade f))"
  "complexidade f = Todos \<Longrightarrow> keep_complexidade f = (\<lambda>r. True)"
  by (rule ext, simp add: keep_complexidade_def)+

lemma keep_alertas_fun:
  "com_alertas f = Apenas_com_alertas \<Longrightarrow>
     keep_alertas f = (\<lambda>r. len_gt0 (cell_of r Alertas_etico_legais))"
  "com_alertas f \<noteq> Apenas_com_alertas \<Longrightarrow> com_alertas f = Apenas_sem_alertas \<Longrightarrow>
     keep_alertas f = (\<lambda>r. len_eq0 (cell_of r Alertas_etico_legais))"
  "com_alertas f \<noteq> Apenas_com_alertas \<Longrightarrow> com_alertas f \<noteq> Apenas_sem_alertas \<Longrightarrow>
     keep_alertas f = (\<lambda>r. True)"
  by (rule ext, simp add: keep_alertas_def)+

lemma keep_busca_fun:
  "busca_texto f \<noteq> [] \<Longrightarrow>
     keep_busca search f = (\<lambda>r. found_in search (cell_of r ideia_resumo))"
  "busca_texto f = [] \<Longrightarrow> keep_busca search f = (\<lambda>r. True)"
  by (rule ext, simp add: keep_busca_def)+

lemma keep_row_fun:
  "keep_row search f = (\<lambda>x. keep_complexidade f x \<and>
      (\<forall>c \<in> set (recursos f). cell_of x c = Str Sim) \<and> keep_alertas f x \<and> keep_busca search f x)"
  by (rule ext) (simp add: keep_row_def keep_recursos_def)

lemma stage_complexidade:
  assumes "(if complexidade f \<noteq> Todos
            then select_rows df Complexidade (\<lambda>v. v = Str (complexidade f))
            else Inr df) = Inr df1"
  shows "df1 = df\<lparr>rows := filter (keep_complexidade f) (rows df)\<rparr>"
    and "complexidade f \<noteq> Todos \<Longrightarrow> Complexidade \<in> set (columns df)"
  using assms by (auto simp: select_rows_eq keep_complexidade_fun split: if_splits)

lemma stage_alertas:
  assumes "(if com_alertas f = Apenas_com_alertas then select_str df Alertas_etico_legais len_gt0
            else if com_alertas f = Apenas_sem_alertas
            then select_str df Alertas_etico_legais len_eq0
            else Inr df) = Inr df3"
  shows "df3 = df\<lparr>rows := filter (keep_alertas f) (rows df)\<rparr>"
    and "com_alertas f = Apenas_com_alertas \<or> com_alertas f = Apenas_sem_alertas
           \<Longrightarrow> Alertas_etico_legais \<in> set (columns df)"
  using assms by (auto simp: keep_alertas_fun split: if_splits dest!: select_str_Inr)

lemma stage_busca:
  assumes "(if busca_texto f \<noteq> [] then str_contains re df ideia_resumo (busca_texto f)
            else Inr df) = Inr df4"
  shows "\<exists>search. (busca_texto f \<noteq> [] \<longrightarrow> re (busca_texto f) = Inr search)
           \<and> df4 = df\<lparr>rows := filter (keep_busca search f) (rows df)\<rparr>"
    and "busca_texto f \<noteq> [] \<Longrightarrow> ideia_resumo \<in> set (columns df)"
  using assms by (auto simp: keep_busca_fun split: if_splits dest!: str_contains_Inr)

lemma apply_filters_Inr:
  assumes "apply_filters re df f = Inr df'"
  shows "\<exists>search. (busca_texto f \<noteq> [] \<longrightarrow> re (busca_texto f) = Inr search)
           \<and> df' = df\<lparr>rows := filter (keep_row search f) (rows df)\<rparr>"
    and "set (columns_used f) \<subseteq> set (columns df)"
proof -
  from assms obtain df1 df2 df3 where
    s1: "(if complexidade f \<noteq> Todos
            then select_rows df Complexidade (\<lambda>v. v = Str (complexidade f))
            else Inr df) = Inr df1" and
    s2: "filter_recursos df1 (recursos f) = Inr df2" and
    s3: "(if com_alertas f = Apenas_com_alertas then select_str df2 Alertas_etico_legais len_gt0
            else if com_alertas f = Apenas_sem_alertas
            then select_str df2 Alertas_etico_legais len_eq0
            else Inr df2) = Inr df3" and
    s4: "(if busca_texto f \<noteq> [] then str_contains re df3 ideia_resumo (busca_texto f)
            else Inr df3) = Inr df'"
    unfolding apply_filters_def by (auto split: sum.splits)
  note c1 = stage_complexidade[OF s1]
  note c2 = filter_recursos_Inr[OF s2]
  note c3 = stage_alertas[OF s3]
  note c4 = stage_busca[OF s4]
  from c4(1) obtain search where re: "busca_texto f \<noteq> [] \<longrightarrow> re (busca_texto f) = Inr search"
    and d4: "df' = df3\<lparr>rows := filter (keep_busca search f) (rows df3)\<rparr>" by blast
  have cols: "columns df1 = columns df" "columns df2 = columns df" "columns df3 = columns df"
    using c1(1) c2 c3(1) by simp_all
  have "df' = df\<lparr>rows := filter (keep_row search f) (rows df)\<rparr>"
    unfolding d4 c3(1) using c2 c1(1)
    by (simp add: keep_row_fun)
  with re show "\<exists>search. (busca_texto f \<noteq> [] \<longrightarrow> re (busca_texto f) = Inr search)
           \<and> df' = df\<lparr>rows := filter (keep_row search f) (rows df)\<rparr>" by blast
  show "set (columns_used f) \<subseteq> set (columns df)"
    using c1(2) c2 c3(2) c4(2) cols by (auto simp: columns_used_def split: if_splits)
qed

lemma apply_filters_rerun:
  assumes cols: "set (columns_used f) \<subseteq> set (columns d)"
    and keep: "\<forall>r \<in> set (rows d). keep_row search f r"
    and re: "busca_texto f \<noteq> [] \<longrightarrow> re (busca_texto f) = Inr search"
  shows "apply_filters re d f = Inr d"
proof -
  have s1: "(if complexidade f \<noteq> Todos
            then select_rows d Complexidade (\<lambda>v. v = Str (complexidade f))
            else Inr d) = Inr d"
  proof (cases "complexidade f = Todos")
    case True
    then show ?thesis by simp
  next
    case False
    with cols have "Complexidade \<in> set (columns d)" by (simp add: columns_used_def)
    moreover from keep False have "\<forall>r \<in> set (rows d). cell_of r Complexidade = Str (complexidade f)"
      by (simp add: keep_row_def keep_complexidade_def)
    ultimately show ?thesis using False by (simp add: select_rows_all)
  qed
  have s2: "filter_recursos d (recursos f) = Inr d"
  proof -
    from cols have "set (recursos f) \<subseteq> set (columns d)" by (simp add: columns_used_def)
    moreover from keep have "\<forall>r \<in> set (rows d). \<forall>c \<in> set (recursos f). cell_of r c = Str Sim"
      by (simp add: keep_row_def keep_recursos_def)
    ultimately show ?thesis by (simp add: filter_recursos_eq rows_all)
  qed
  have ka: "\<forall>r \<in> set (rows d). keep_alertas f r"
    using keep by (simp add: keep_row_def)
  have s3: "(if com_alertas f = Apenas_com_alertas then select_str d Alertas_etico_legais len_gt0
            else if com_alertas f = Apenas_sem_alertas
            then select_str d Alertas_etico_legais len_eq0
            else Inr d) = Inr d"
  proof (cases "com_alertas f = Apenas_com_alertas \<or> com_alertas f = Apenas_sem_alertas")
    case False
    then show ?thesis by simp
  next
    case True
    with cols have c: "Alertas_etico_legais \<in> set (columns d)" by (auto simp: columns_used_def)
    have obj: "\<forall>r \<in> set (rows d). is_object (cell_of r Alertas_etico_legais)"
    proof
      fix r assume "r \<in> set (rows d)"
      with ka have "keep_alertas f r" by simp
      with True have "len_gt0 (cell_of r Alertas_etico_legais)
          \<or> len_eq0 (cell_of r Alertas_etico_legais)"
        by (simp add: keep_alertas_def split: if_splits)
      then show "is_object (cell_of r Alertas_etico_legais)"
        using len_object by blast
    qed
    show ?thesis
    proof (cases "com_alertas f = Apenas_com_alertas")
      case com: True
      with ka have "\<forall>r \<in> set (rows d). len_gt0 (cell_of r Alertas_etico_legais)"
        by (simp add: keep_alertas_def)
      then show ?thesis using com by (simp add: select_str_eq[OF c obj] rows_all)
    next
      case notcom: False
      with True have sem: "com_alertas f = Apenas_sem_alertas" by simp
      with ka notcom have "\<forall>r \<in> set (rows d). len_eq0 (cell_of r Alertas_etico_legais)"
        by (simp add: keep_alertas_def)
      then show ?thesis using notcom sem by (simp add: select_str_eq[OF c obj] rows_all)
    qed
  qed
  have s4: "(if busca_texto f \<noteq> [] then str_contains re d ideia_resumo (busca_texto f)
            else Inr d) = Inr d"
  proof (cases "busca_texto f = []")
    case True
    then show ?thesis by simp
  next
    case False
    with cols have c: "ideia_resumo \<in> set (columns d)" by (simp add: columns_used_def)
    from keep False have found: "\<forall>r \<in> set (rows d). found_in search (cell_of r ideia_resumo)"
      by (simp add: keep_row_def keep_busca_def)
    then have obj: "\<forall>r \<in> set (rows d). is_object (cell_of r ideia_resumo)"
      by (auto dest: found_object)
    from re False have "re (busca_texto f) = Inr search" by simp
    from str_contains_eq[where re=re and pat="busca_texto f", OF c obj this] found False
    show ?thesis by (simp add: rows_all)
  qed
  show ?thesis
    unfolding apply_filters_def by (simp only: s1 s2 s3 s4 sum.case)
qed

text \<open>
  C6. Applying the primary filters to their own result changes nothing: the second pass
  returns the frame of the first, and when the first pass raises there is no frame to filter
  again.
\<close>

theorem apply_filters_idempotent:
  "(case apply_filters re df f of Inl e \<Rightarrow> Inl e | Inr d \<Rightarrow> apply_filters re d f)
     = apply_filters re df f"
proof (cases "apply_filters re df f")
  case (Inl e)
  then show ?thesis by simp
next
  case (Inr d)
  from apply_filters_Inr[OF Inr] obtain search where
    re: "busca_texto f \<noteq> [] \<longrightarrow> re (busca_texto f) = Inr search" and
    d: "d = df\<lparr>rows := filter (keep_row search f) (rows df)\<rparr>" and
    cols: "set (columns_used f) \<subseteq> set (columns df)"
    by blast
  from d have keep: "\<forall>r \<in> set (rows d). keep_row search f r" by simp
  from d cols have cols': "set (columns_used f) \<subseteq> set (columns d)" by simp
  have "apply_filters re d f = Inr d"
    by (rule apply_filters_rerun[where re=re and search=search, OF cols' keep re])
  with Inr show ?thesis by simp
qed

section \<open>The alert criterion\<close>






section \<open>Searching with the fragment\<close>

text \<open>Without a dot, the fragment's search is the substring test on the lower-cased texts.\<close>

lemma match_here_prefix:
  "46 \<notin> set pat \<Longrightarrow> match_here pat s = prefix (lower_latin1 pat) (lower_latin1 s)"
  by (induction pat s rule: match_here.induct) (auto simp: lower_latin1_def atom_matches_def)

lemma search_from_py_in:
  "46 \<notin> set pat \<Longrightarrow> search_from pat s = py_in (lower_latin1 pat) (lower_latin1 s)"
proof (induction s)
  case Nil
  then show ?case by (cases pat) (simp_all add: lower_latin1_def)
next
  case (Cons c cs)
  then show ?case
    using match_here_prefix[of pat "c # cs"] by (simp add: lower_latin1_def)
qed

lemmas filter_defs = apply_filters_def only_busca_def str_contains_def select_str_def
  select_rows_def getitem_def str_accessor_def mask_rows_def cell_of_def re_fragment_def
  re_special_def atom_matches_def lower_char_def Todos_def Apenas_com_alertas_def
  Apenas_sem_alertas_def len_gt0_def len_eq0_def

lemma three_ideas_normalized: "\<forall>r \<in> set (rows three_ideas). normalized_row r"
  by (simp add: three_ideas_rows normalized_row_def cell_of_def names strip_def py_isspace_def)



text \<open>
  Whatever the search stage does, the result has the columns of the frame and at most its
  rows, and every row kept passes the complexity, the feature and the alert criterion: each
  selected feature column holds \<open>Sim\<close>.
\<close>

lemma apply_filters_conjunction:
  assumes "apply_filters re df f = Inr df'"
  shows "length (rows df') \<le> length (rows df) \<and> columns df' = columns df
     \<and> (\<forall>r \<in> set (rows df'). r \<in> set (rows df) \<and> keep_complexidade f r
           \<and> (\<forall>c \<in> set (recursos f). cell_of r c = Str Sim) \<and> keep_alertas f r)"
proof -
  from apply_filters_Inr(1)[OF assms] obtain search where
    "df' = df\<lparr>rows := filter (keep_row search f) (rows df)\<rparr>" by blast
  then show ?thesis by (simp add: keep_row_def keep_recursos_def)
qed

text \<open>A keyword is found whatever its case.\<close>

lemma search_keyword:
  "\<exists>d. apply_filters re_fragment three_ideas (only_busca (u ''CARONAS'')) = Inr d
     \<and> map summary_of (rows d) = [u ''App de caronas'']"
  by (simp add: filter_defs three_ideas_rows three_ideas_columns summary_of_def names)

text \<open>
  C2, at the search text \<open>.\<close>: the pattern is compiled as a regular expression, the dot
  matches any character, and all three records are kept although no summary contains a
  dot.
\<close>

theorem search_dot_keeps_all:
  "(\<exists>d. apply_filters re_fragment three_ideas (only_busca (u ''.'')) = Inr d
      \<and> map summary_of (rows d)
          = [u ''Rede Social de estudo'', u ''App de caronas'', u ''Calculadora''])
   \<and> \<not> py_in (lower_latin1 (u ''.'')) (lower_latin1 (u ''Rede Social de estudo''))
   \<and> \<not> py_in (lower_latin1 (u ''.'')) (lower_latin1 (u ''App de caronas''))
   \<and> \<not> py_in (lower_latin1 (u ''.'')) (lower_latin1 (u ''Calculadora''))"
  by (simp add: filter_defs three_ideas_rows three_ideas_columns summary_of_def names
      lower_latin1_def)

text \<open>
  C4, at the search texts \<open>(\<close> and \<open>+\<close>: neither compiles as a regular expression,
  and \<open>apply_filters\<close> raises instead of returning the records that contain the text
  (here none).
\<close>

theorem search_special_raises:
  "apply_filters re_fragment three_ideas (only_busca (u ''('')) = Inl ReError
   \<and> apply_filters re_fragment three_ideas (only_busca (u ''+'')) = Inl ReError"
  by (simp add: filter_defs three_ideas_rows three_ideas_columns names)

section \<open>Advanced filters\<close>

lemma getitems_eq:
  "set cs \<subseteq> set (columns df) \<Longrightarrow> getitems df cs = Inr (map (\<lambda>r. map (cell_of r) cs) (rows df))"
proof -
  assume "set cs \<subseteq> set (columns df)"
  then have "filter (\<lambda>c. c \<notin> set (columns df)) cs = []"
    by (auto simp: filter_empty_conv)
  then show ?thesis by (simp add: getitems_def)
qed

lemma getitems_Inr: "getitems df cs = Inr feats \<Longrightarrow> set cs \<subseteq> set (columns df)"
  by (auto simp: getitems_def filter_empty_conv split: list.splits)

lemma zip_map_same: "zip xs (map f xs) = map (\<lambda>x. (x, f x)) xs"
  by (induction xs) auto

lemma set_column_counts:
  "rows (set_column df num_features
           (map (\<lambda>vals. Num (count_sim vals)) (map (\<lambda>r. map (cell_of r) rn_features) (rows df))))
     = map with_count (rows df)"
  by (simp add: set_column_def zip_map_same with_count_def feature_total_def comp_def)

lemma num_features_other:
  "num_features \<noteq> apps_semelhantes" "num_features \<notin> set rn_features"
  by (simp_all add: num_features_def apps_semelhantes_def rn_features_def RN_camera_def RN_maps_def
      RN_notificacoes_def RN_autenticacao_def RN_pagamentos_def u_def)

lemma cell_of_with_count:
  "cell_of (with_count r) num_features = Num (feature_total r)"
  "c \<noteq> num_features \<Longrightarrow> cell_of (with_count r) c = cell_of r c"
  by (simp_all add: with_count_def cell_of_update_same cell_of_update)

lemma drop_update:
  "k \<notin> fst ` set r \<Longrightarrow> filter (\<lambda>kv. fst kv \<noteq> k) (AList.update k v r) = r"
proof (induction r)
  case Nil
  then show ?case by simp
next
  case (Cons a r)
  then show ?case by (cases a) auto
qed

lemma drop_with_count:
  "num_features \<notin> fst ` set r \<Longrightarrow> filter (\<lambda>kv. fst kv \<noteq> num_features) (with_count r) = r"
  unfolding with_count_def by (rule drop_update)

lemma drop_removes: "num_features \<notin> fst ` set (filter (\<lambda>kv. fst kv \<noteq> num_features) r)"
  by auto

lemma keep_apps_fun:
  "has_similar_apps af = Com_apps_semelhantes \<Longrightarrow>
     keep_apps af = (\<lambda>r. len_gt0 (cell_of r apps_semelhantes))"
  "has_similar_apps af \<noteq> Com_apps_semelhantes \<Longrightarrow> has_similar_apps af = Sem_apps_semelhantes \<Longrightarrow>
     keep_apps af = (\<lambda>r. len_eq0 (cell_of r apps_semelhantes))"
  "has_similar_apps af \<noteq> Com_apps_semelhantes \<Longrightarrow> has_similar_apps af \<noteq> Sem_apps_semelhantes \<Longrightarrow>
     keep_apps af = (\<lambda>r. True)"
  by (rule ext, simp add: keep_apps_def)+

lemma range_stage:
  "(let df1 = set_column df num_features
                (map (\<lambda>vals. Num (count_sim vals)) (map (\<lambda>r. map (cell_of r) rn_features) (rows df)))
    in mask_rows df1
         (map (\<lambda>r. case cell_of r num_features of
                      Num n \<Rightarrow> min_features af \<le> n \<and> n \<le> max_features af
                    | _ \<Rightarrow> False) (rows df1)))
   = counted df af"
proof -
  let ?df1 = "set_column df num_features
                (map (\<lambda>vals. Num (count_sim vals)) (map (\<lambda>r. map (cell_of r) rn_features) (rows df)))"
  let ?P = "\<lambda>r. case cell_of r num_features of
                      Num n \<Rightarrow> min_features af \<le> n \<and> n \<le> max_features af
                    | _ \<Rightarrow> False"
  have r1: "rows ?df1 = map with_count (rows df)" by (rule set_column_counts)
  have c1: "columns ?df1 = (if num_features \<in> set (columns df) then columns df
                  else columns df @ [num_features])"
    by (simp add: set_column_def)
  have "mask_rows ?df1 (map ?P (rows ?df1)) = ?df1\<lparr>rows := filter ?P (rows ?df1)\<rparr>"
    by (simp only: mask_rows_def mask_filter)
  also have "filter ?P (rows ?df1) = map with_count (filter (in_range af) (rows df))"
    unfolding r1 by (simp add: filter_map comp_def cell_of_with_count in_range_def[abs_def])
  finally show ?thesis
    using c1 by (simp add: counted_def Let_def)
qed

lemma apply_advanced_filters_unfold:
  "apply_advanced_filters df af =
     (case getitems df rn_features of
        Inl e \<Rightarrow> Inl e
      | Inr feats \<Rightarrow>
          (case (if has_similar_apps af = Com_apps_semelhantes
                 then select_str (counted df af) apps_semelhantes len_gt0
                 else if has_similar_apps af = Sem_apps_semelhantes
                 then select_str (counted df af) apps_semelhantes len_eq0
                 else Inr (counted df af)) of
             Inl e \<Rightarrow> Inl e
           | Inr df3 \<Rightarrow> drop_column df3 num_features))"
proof (cases "getitems df rn_features")
  case (Inl e)
  then show ?thesis by (simp add: apply_advanced_filters_def)
next
  case (Inr feats)
  from getitems_Inr[OF Inr] have "feats = map (\<lambda>r. map (cell_of r) rn_features) (rows df)"
    using Inr by (simp add: getitems_eq)
  then show ?thesis
    unfolding apply_advanced_filters_def Inr sum.case
    using range_stage[of df af] by (simp add: Let_def)
qed

lemma counted_cell:
  "r' \<in> set (rows (counted df af)) \<Longrightarrow> c \<noteq> num_features \<Longrightarrow>
   \<exists>r \<in> set (rows df). cell_of r' c = cell_of r c"
  by (auto simp: counted_def cell_of_with_count)

lemma counted_select:
  "(counted df af)\<lparr>rows := filter (\<lambda>r. p (cell_of r apps_semelhantes)) (rows (counted df af))\<rparr>
     = (counted df af)\<lparr>rows := map with_count
          (filter (\<lambda>r. in_range af r \<and> p (cell_of r apps_semelhantes)) (rows df))\<rparr>"
  by (simp add: counted_def filter_map comp_def cell_of_with_count num_features_other(1)[symmetric])

lemma drop_counted:
  assumes "frame_ok df" and "num_features \<notin> set (columns df)"
  shows "drop_column ((counted df af)\<lparr>rows := map with_count (filter P (rows df))\<rparr>) num_features
     = Inr (df\<lparr>rows := filter P (rows df)\<rparr>)"
proof -
  have "filter (\<lambda>kv. fst kv \<noteq> num_features) (with_count r) = r" if "r \<in> set (rows df)" for r
  proof (rule drop_with_count)
    from assms that have "map fst r = columns df" and "num_features \<notin> set (columns df)"
      by (simp_all add: frame_ok_def)
    then show "num_features \<notin> fst ` set r" by (metis set_map)
  qed
  then have "map (filter (\<lambda>kv. fst kv \<noteq> num_features) \<circ> with_count) (filter P (rows df))
      = filter P (rows df)"
    by (intro map_idI) simp
  then have "map (filter (\<lambda>kv. fst kv \<noteq> num_features)) (map with_count (filter P (rows df)))
      = filter P (rows df)"
    by simp
  moreover have "filter (\<lambda>k. k \<noteq> num_features) (columns df @ [num_features]) = columns df"
    using assms(2) by (auto simp: filter_id_conv)
  ultimately show ?thesis
    using assms(2) by (simp add: drop_column_def counted_def)
qed

text \<open>What the advanced filters return on a frame that has no \<open>num_features\<close> column.\<close>

lemma apply_advanced_filters_eq:
  assumes ok: "frame_ok df" and feats: "set rn_features \<subseteq> set (columns df)"
    and fresh: "num_features \<notin> set (columns df)"
    and apps: "has_similar_apps af = Com_apps_semelhantes \<or> has_similar_apps af = Sem_apps_semelhantes
        \<longrightarrow> apps_semelhantes \<in> set (columns df)
            \<and> (\<forall>r \<in> set (rows df). is_object (cell_of r apps_semelhantes))"
  shows "apply_advanced_filters df af
     = Inr (df\<lparr>rows := filter (\<lambda>r. in_range af r \<and> keep_apps af r) (rows df)\<rparr>)"
proof -
  have sel: "select_str (counted df af) apps_semelhantes p
      = Inr ((counted df af)\<lparr>rows := map with_count
          (filter (\<lambda>r. in_range af r \<and> p (cell_of r apps_semelhantes)) (rows df))\<rparr>)"
    if "has_similar_apps af = Com_apps_semelhantes \<or> has_similar_apps af = Sem_apps_semelhantes"
    for p
  proof -
    from that apps have c: "apps_semelhantes \<in> set (columns df)"
      and o: "\<forall>r \<in> set (rows df). is_object (cell_of r apps_semelhantes)" by simp_all
    from c have c': "apps_semelhantes \<in> set (columns (counted df af))"
      by (simp add: counted_def)
    have o': "\<forall>r \<in> set (rows (counted df af)). is_object (cell_of r apps_semelhantes)"
      using o counted_cell[OF _ num_features_other(1)[symmetric]] by metis
    show ?thesis
      by (simp only: select_str_eq[OF c' o'] counted_select)
  qed
  have plain: "counted df af = (counted df af)\<lparr>rows := map with_count
      (filter (\<lambda>r. in_range af r \<and> True) (rows df))\<rparr>"
    by (simp add: counted_def)
  have "(case (if has_similar_apps af = Com_apps_semelhantes
                 then select_str (counted df af) apps_semelhantes len_gt0
                 else if has_similar_apps af = Sem_apps_semelhantes
                 then select_str (counted df af) apps_semelhantes len_eq0
                 else Inr (counted df af)) of
             Inl e \<Rightarrow> Inl e
           | Inr df3 \<Rightarrow> drop_column df3 num_features)
      = Inr (df\<lparr>rows := filter (\<lambda>r. in_range af r \<and> keep_apps af r) (rows df)\<rparr>)"
  proof (cases "has_similar_apps af = Com_apps_semelhantes")
    case True
    then show ?thesis
      by (simp add: sel drop_counted[OF ok fresh] keep_apps_fun)
  next
    case notcom: False
    show ?thesis
    proof (cases "has_similar_apps af = Sem_apps_semelhantes")
      case True
      with notcom show ?thesis
        by (simp add: sel drop_counted[OF ok fresh] keep_apps_fun)
    next
      case False
      with notcom have "drop_column (counted df af) num_features
          = Inr (df\<lparr>rows := filter (\<lambda>r. in_range af r \<and> True) (rows df)\<rparr>)"
        using drop_counted[OF ok fresh, where af=af and P="\<lambda>r. in_range af r \<and> True"] plain
        by simp
      with notcom False show ?thesis by (simp add: keep_apps_fun)
    qed
  qed
  then show ?thesis
    by (simp add: apply_advanced_filters_unfold getitems_eq[OF feats])
qed

lemma six_ideas_columns:
  "columns six_ideas = csv_columns @ [apps_semelhantes_lista, alertas_lista]"
  by (simp add: six_ideas_def six_ideas_frame_def load_defs names)

lemma six_ideas_ok: "frame_ok six_ideas"
  by (simp add: frame_ok_def six_ideas_def six_ideas_frame_def load_defs names)

lemma three_ideas_ok: "frame_ok three_ideas"
  by (simp add: frame_ok_def three_ideas_def three_ideas_frame_def load_defs names)

lemma six_ideas_totals: "map feature_total (rows six_ideas) = [0, 1, 2, 3, 4, 5]"
  by (simp add: six_ideas_def six_ideas_frame_def load_defs names feature_total_def count_sim_def
      rn_features_def)

lemma six_ideas_summaries:
  "map summary_of (rows six_ideas) = [u ''Projeto 0'', u ''Projeto 1'', u ''Projeto 2'',
     u ''Projeto 3'', u ''Projeto 4'', u ''Projeto 5'']"
  by (simp add: six_ideas_def six_ideas_frame_def load_defs names summary_of_def)

lemma cleaned_columns_have:
  "set rn_features \<subseteq> set (csv_columns @ [apps_semelhantes_lista, alertas_lista])"
  "apps_semelhantes \<in> set (csv_columns @ [apps_semelhantes_lista, alertas_lista])"
  "num_features \<notin> set (csv_columns @ [apps_semelhantes_lista, alertas_lista])"
  by (simp_all add: rn_features_def num_features_def names)

lemma apps_options_differ:
  "Todos \<noteq> Com_apps_semelhantes" "Todos \<noteq> Sem_apps_semelhantes"
  by (simp_all add: Todos_def Com_apps_semelhantes_def Sem_apps_semelhantes_def u_def)

lemma count_sim_bounds: "0 \<le> count_sim vals \<and> count_sim vals \<le> int (length vals)"
  by (simp add: count_sim_def)

lemma feature_total_bounds: "0 \<le> feature_total r \<and> feature_total r \<le> 5"
  using count_sim_bounds[of "map (cell_of r) rn_features"]
  by (simp add: feature_total_def rn_features_def)

text \<open>
  C8. On a view over the cleaned columns and with no criterion on similar apps, the
  advanced filters return exactly the records whose number of feature flags equal to
  \<open>Sim\<close> lies between \<open>min_features\<close> and \<open>max_features\<close>, both included, in the
  order of the view; that number is always between 0 and 5.
\<close>

theorem feature_count_range:
  assumes "frame_ok df" and "set rn_features \<subseteq> set (columns df)"
    and "num_features \<notin> set (columns df)"
    and "has_similar_apps af \<noteq> Com_apps_semelhantes"
    and "has_similar_apps af \<noteq> Sem_apps_semelhantes"
  shows "apply_advanced_filters df af
           = Inr (df\<lparr>rows := filter (\<lambda>r. min_features af \<le> feature_total r
                                      \<and> feature_total r \<le> max_features af) (rows df)\<rparr>)
       \<and> (\<forall>r \<in> set (rows df). 0 \<le> feature_total r \<and> feature_total r \<le> 5)"
proof -
  from assms(4,5) have "apply_advanced_filters df af
      = Inr (df\<lparr>rows := filter (\<lambda>r. in_range af r \<and> keep_apps af r) (rows df)\<rparr>)"
    by (intro apply_advanced_filters_eq assms(1-3)) simp
  with assms(4,5) show ?thesis
    by (simp add: keep_apps_fun in_range_def feature_total_bounds)
qed

theorem feature_count_range_witness:
  "\<exists>d. apply_advanced_filters six_ideas
           \<lparr>min_features = 2, max_features = 3, has_similar_apps = Todos\<rparr> = Inr d
     \<and> map feature_total (rows six_ideas) = [0, 1, 2, 3, 4, 5]
     \<and> map feature_total (rows d) = [2, 3]
     \<and> map summary_of (rows d) = [u ''Projeto 2'', u ''Projeto 3'']"
proof -
  let ?af = "\<lparr>min_features = 2, max_features = 3, has_similar_apps = Todos\<rparr>"
  have "apply_advanced_filters six_ideas ?af
      = Inr (six_ideas\<lparr>rows := filter (\<lambda>r. min_features ?af \<le> feature_total r
                                      \<and> feature_total r \<le> max_features ?af) (rows six_ideas)\<rparr>)"
    using feature_count_range[of six_ideas ?af] six_ideas_ok cleaned_columns_have apps_options_differ
    by (simp add: six_ideas_columns)
  moreover have "map feature_total (filter (\<lambda>r. 2 \<le> feature_total r \<and> feature_total r \<le> 3)
      (rows six_ideas)) = [2, 3]"
    "map summary_of (filter (\<lambda>r. 2 \<le> feature_total r \<and> feature_total r \<le> 3)
      (rows six_ideas)) = [u ''Projeto 2'', u ''Projeto 3'']"
    by (simp_all add: six_ideas_def six_ideas_frame_def load_defs names feature_total_def
        count_sim_def rn_features_def summary_of_def)
  ultimately show ?thesis using six_ideas_totals by simp
qed




text \<open>
  C10. With the whole slider range 0 to 5 and \<open>Todos\<close> for similar apps, the advanced
  filters return the view they were given: same columns, same rows, same order.
\<close>

theorem advanced_filters_identity:
  assumes "frame_ok df" and "set rn_features \<subseteq> set (columns df)"
    and "num_features \<notin> set (columns df)"
  shows "apply_advanced_filters df \<lparr>min_features = 0, max_features = 5, has_similar_apps = Todos\<rparr>
           = Inr df"
proof -
  let ?af = "\<lparr>min_features = 0, max_features = 5, has_similar_apps = Todos\<rparr>"
  have "apply_advanced_filters df ?af
      = Inr (df\<lparr>rows := filter (\<lambda>r. in_range ?af r \<and> keep_apps ?af r) (rows df)\<rparr>)"
    using apps_options_differ by (intro apply_advanced_filters_eq assms) simp
  moreover have "filter (\<lambda>r. in_range ?af r \<and> keep_apps ?af r) (rows df) = rows df"
    using apps_options_differ feature_total_bounds
    by (simp add: in_range_def keep_apps_def)
  ultimately show ?thesis by simp
qed

theorem advanced_filters_identity_witness:
  "apply_advanced_filters three_ideas
     \<lparr>min_features = 0, max_features = 5, has_similar_apps = Todos\<rparr> = Inr three_ideas
   \<and> length (rows three_ideas) = 3"
  using advanced_filters_identity[OF three_ideas_ok] cleaned_columns_have
  by (simp add: three_ideas_columns three_ideas_rows)

text \<open>
  A frame that does have a column \<open>num_features\<close> loses it: the filters overwrite the
  column and drop it.
\<close>

lemma num_features_column_lost:
  "apply_advanced_filters \<lparr>columns = rn_features @ [num_features], rows = []\<rparr>
     \<lparr>min_features = 0, max_features = 5, has_similar_apps = Todos\<rparr>
   = Inr \<lparr>columns = rn_features, rows = []\<rparr>"
  using apps_options_differ num_features_other(2)
  by (auto simp: apply_advanced_filters_def getitems_def set_column_def mask_rows_def
      drop_column_def Let_def filter_id_conv)

section \<open>Aggregation queries on views\<close>

lemma cleaned_has:
  assumes "cleaned_view df"
  shows "Complexidade \<in> set (columns df)" "set rn_features \<subseteq> set (columns df)"
    "apps_semelhantes_lista \<in> set (columns df)" "alertas_lista \<in> set (columns df)"
    "ideia_resumo \<in> set (columns df)"
  using assms by (auto simp: cleaned_view_def cleaned_columns_def csv_columns_def rn_features_def)

lemma row_get_column:
  assumes "frame_ok df" and "r \<in> set (rows df)" and "c \<in> set (columns df)"
  shows "row_get r c = Inr (cell_of r c)"
proof -
  from assms have "c \<in> fst ` set r" by (metis frame_ok_def set_map)
  then obtain v where "map_of r c = Some v"
    by (metis domD dom_map_of_conv_image_fst)
  then show ?thesis by (simp add: row_get_def cell_of_def)
qed

lemma features_usage_total:
  "set fs \<subseteq> set (columns df) \<Longrightarrow> \<exists>res. features_usage df fs usage = Inr res"
  by (induction fs arbitrary: usage) (auto simp: getitem_def)

lemma extend_all_lists:
  "\<forall>v \<in> set vals. \<exists>xs. v = Lst xs \<Longrightarrow> \<exists>res. extend_all vals = Inr res"
  by (induction vals) (auto split: sum.splits cell.splits)

lemma feature_count_total:
  "\<forall>c \<in> set fs. \<exists>v. row_get r c = Inr v \<Longrightarrow> \<exists>n. feature_count r fs = Inr n"
  by (induction fs) (auto split: sum.splits)

lemma cvf_rows_total:
  "\<forall>r \<in> set rs. \<exists>x. cvf_row r = Inr x \<Longrightarrow> \<exists>xs. cvf_rows rs = Inr xs"
  by (induction rs) (auto split: sum.splits)

lemma normalized_lists:
  assumes "normalized_row r"
  shows "\<exists>xs. cell_of r alertas_lista = Lst xs" "\<exists>xs. cell_of r apps_semelhantes_lista = Lst xs"
    "\<exists>s. cell_of r ideia_resumo = Str s"
proof -
  from assms obtain a b where "cell_of r Alertas_etico_legais = Str a"
    "cell_of r apps_semelhantes = Str b"
    by (cases "cell_of r Alertas_etico_legais"; cases "cell_of r apps_semelhantes")
       (auto simp: normalized_row_def)
  with assms have
    "cell_of r alertas_lista = (if a = [] then Lst [] else Lst (map strip (split_semi a)))"
    "cell_of r apps_semelhantes_lista = (if b = [] then Lst [] else Lst (map strip (split_semi b)))"
    by (auto simp: normalized_row_def)
  then show "\<exists>xs. cell_of r alertas_lista = Lst xs"
    "\<exists>xs. cell_of r apps_semelhantes_lista = Lst xs"
    by simp_all
  from assms show "\<exists>s. cell_of r ideia_resumo = Str s"
    by (cases "cell_of r ideia_resumo") (auto simp: normalized_row_def)
qed

lemma usage_no_rows:
  assumes "set rn_features \<subseteq> set (columns df)" and "rows df = []"
  shows "get_rn_features_usage df = Inr zero_usage"
  using assms
  by (simp add: get_rn_features_usage_def rn_features_def getitem_def zero_usage_def title_def
      RN_camera_def RN_maps_def RN_notificacoes_def RN_autenticacao_def RN_pagamentos_def u_def)

lemma cvf_row_total:
  assumes "cleaned_view df" and "r \<in> set (rows df)"
  shows "\<exists>x. cvf_row r = Inr x"
proof -
  from assms have ok: "frame_ok df" and n: "normalized_row r" by (simp_all add: cleaned_view_def)
  note has = cleaned_has[OF assms(1)]
  have get: "row_get r c = Inr (cell_of r c)" if "c \<in> set (columns df)" for c
    by (rule row_get_column[OF ok assms(2) that])
  have "\<forall>c \<in> set rn_features. \<exists>v. row_get r c = Inr v"
    using get has(2) by blast
  from feature_count_total[OF this] obtain k where k: "feature_count r rn_features = Inr k" ..
  from normalized_lists[OF n] obtain xs s where
    "cell_of r alertas_lista = Lst xs" "cell_of r ideia_resumo = Str s" by blast
  with k get[OF has(4)] get[OF has(5)] get[OF has(1)] show ?thesis
    by (simp add: cvf_row_def)
qed

text \<open>
  C5, as the code has it. On a view of a cleaned Dataset every aggregation query returns,
  and when the view has no rows the result is empty: no complexity level, a count of 0 for
  each of the five features, no similar app, no alert, no comparison row and ten empty
  buckets. On the frame without columns of a failed load the comparison rows and the buckets
  are empty as well.
\<close>

theorem aggregations_on_views:
  assumes "cleaned_view df"
  shows "(\<exists>a b c d e g.
       get_complexity_distribution df = Inr a \<and> get_rn_features_usage df = Inr b
     \<and> get_apps_semelhantes_count df = Inr c \<and> get_ethical_alerts_count df = Inr d
     \<and> get_complexity_vs_features df = Inr e \<and> get_categories_analysis lower df = Inr g
     \<and> (rows df = [] \<longrightarrow> a = [] \<and> b = zero_usage \<and> c = [] \<and> d = [] \<and> e = []
            \<and> g = categories_init))
   \<and> get_complexity_vs_features empty_frame = Inr []
   \<and> get_categories_analysis lower empty_frame = Inr categories_init"
proof -
  from assms have ok: "frame_ok df" and norm: "\<forall>r \<in> set (rows df). normalized_row r"
    by (simp_all add: cleaned_view_def)
  note has = cleaned_has[OF assms]
  obtain a where a: "get_complexity_distribution df = Inr a" "rows df = [] \<longrightarrow> a = []"
    using has(1)
    by (simp add: get_complexity_distribution_def getitem_def value_counts_def first_seen_def)
  obtain b where b: "get_rn_features_usage df = Inr b" "rows df = [] \<longrightarrow> b = zero_usage"
    using features_usage_total[OF has(2), of "[]"] usage_no_rows[OF has(2)]
    by (auto simp: get_rn_features_usage_def)
  have "\<forall>v \<in> set (map (\<lambda>r. cell_of r apps_semelhantes_lista) (rows df)). \<exists>xs. v = Lst xs"
    using norm normalized_lists(2) by auto
  from extend_all_lists[OF this] obtain apps where
    apps: "extend_all (map (\<lambda>r. cell_of r apps_semelhantes_lista) (rows df)) = Inr apps" ..
  then have apps0: "rows df = [] \<longrightarrow> apps = []" by auto
  obtain c where c: "get_apps_semelhantes_count df = Inr c" "rows df = [] \<longrightarrow> c = []"
    using has(3) apps apps0
    by (simp add: get_apps_semelhantes_count_def getitem_def value_counts_def first_seen_def)
  have "\<forall>v \<in> set (map (\<lambda>r. cell_of r alertas_lista) (rows df)). \<exists>xs. v = Lst xs"
    using norm normalized_lists(1) by auto
  from extend_all_lists[OF this] obtain alerts where
    alerts: "extend_all (map (\<lambda>r. cell_of r alertas_lista) (rows df)) = Inr alerts" ..
  then have alerts0: "rows df = [] \<longrightarrow> alerts = []" by auto
  obtain d where d: "get_ethical_alerts_count df = Inr d" "rows df = [] \<longrightarrow> d = []"
    using has(4) alerts alerts0
    by (cases "alerts = []") (simp_all add: get_ethical_alerts_count_def getitem_def)
  have "\<forall>r \<in> set (rows df). \<exists>x. cvf_row r = Inr x"
    using cvf_row_total[OF assms] by blast
  from cvf_rows_total[OF this] obtain e where e: "cvf_rows (rows df) = Inr e" ..
  then have e0: "rows df = [] \<longrightarrow> e = []" by auto
  have texts: "\<forall>r \<in> set (rows df). \<exists>s. row_get r ideia_resumo = Inr (Str s)"
  proof
    fix r assume r: "r \<in> set (rows df)"
    with norm normalized_lists(3) obtain s where "cell_of r ideia_resumo = Str s" by blast
    with row_get_column[OF ok r has(5)] show "\<exists>s. row_get r ideia_resumo = Inr (Str s)" by simp
  qed
  obtain g where g: "get_categories_analysis lower df = Inr g" "rows df = [] \<longrightarrow> g = categories_init"
    using categorize_rows_names[OF texts, of lower "\<lambda>c. []"]
    by (auto simp: get_categories_analysis_def keys_categories_init)
  have "get_complexity_vs_features empty_frame = Inr []"
    "get_categories_analysis lower empty_frame = Inr categories_init"
    by (simp_all add: get_complexity_vs_features_def get_categories_analysis_def empty_frame_def)
  with a b c d e e0 g show ?thesis
    unfolding get_complexity_vs_features_def by blast
qed

lemma no_ideas_cleaned: "cleaned_view no_ideas"
  using cleaned_columns_have
  by (simp add: cleaned_view_def no_ideas_def frame_ok_def three_ideas_columns cleaned_columns_def)

lemma three_ideas_cleaned: "cleaned_view three_ideas"
  using three_ideas_ok three_ideas_normalized
  by (simp add: cleaned_view_def three_ideas_columns cleaned_columns_def)

theorem aggregations_on_views_witness:
  "cleaned_view no_ideas \<and> rows no_ideas = []
   \<and> get_complexity_distribution no_ideas = Inr []
   \<and> get_rn_features_usage no_ideas = Inr zero_usage
   \<and> get_apps_semelhantes_count no_ideas = Inr []
   \<and> get_ethical_alerts_count no_ideas = Inr []
   \<and> get_complexity_vs_features no_ideas = Inr []
   \<and> get_categories_analysis lower_latin1 no_ideas = Inr categories_init"
proof -
  have "rows no_ideas = []" by (simp add: no_ideas_def)
  with aggregations_on_views[OF no_ideas_cleaned, of lower_latin1] no_ideas_cleaned
  show ?thesis by auto
qed

text \<open>
  C5 as stated fails on the Dataset of a failed load: \<open>pd.DataFrame()\<close> has no columns,
  and four of the queries raise \<open>KeyError\<close> on it. A file with a header and no record is
  not cleaned either, so its Dataset lacks the two list columns.
\<close>

theorem aggregations_raise_without_columns:
  "load_data (u ''ideias.csv'') (Inl FileNotFoundError) = empty_frame
   \<and> load_data [] (Inr three_ideas_frame) = empty_frame
   \<and> rows empty_frame = []
   \<and> get_complexity_distribution empty_frame = Inl (KeyError Complexidade)
   \<and> get_rn_features_usage empty_frame = Inl (KeyError RN_camera)
   \<and> get_apps_semelhantes_count empty_frame = Inl (KeyError apps_semelhantes_lista)
   \<and> get_ethical_alerts_count empty_frame = Inl (KeyError alertas_lista)
   \<and> get_apps_semelhantes_count
         (load_data (u ''ideias.csv'') (Inr \<lparr>columns = csv_columns, rows = []\<rparr>))
       = Inl (KeyError apps_semelhantes_lista)"
  by (simp add: load_data_def clean_data_def df_empty_def empty_frame_def
      get_complexity_distribution_def get_rn_features_usage_def get_apps_semelhantes_count_def
      get_ethical_alerts_count_def getitem_def rn_features_def names)

section \<open>From the file to the views\<close>

lemma apply_cells_texts:
  "\<forall>v \<in> set vals. is_Str v \<Longrightarrow> apply_cells split_list vals = Inr (map derived_list vals)"
proof (induction vals)
  case Nil
  then show ?case by simp
next
  case (Cons v vals)
  then obtain x where "v = Str x" by (cases v) auto
  with Cons show ?case by (simp add: derived_list_def)
qed

lemma derive_column_texts:
  assumes "src \<in> set (columns df)" and "\<forall>r \<in> set (rows df). is_Str (cell_of r src)"
  shows "derive_column df src dst
     = Inr \<lparr>columns = (if dst \<in> set (columns df) then columns df else columns df @ [dst]),
            rows = map (\<lambda>r. AList.update dst (derived_list (cell_of r src)) r) (rows df)\<rparr>"
proof -
  have "apply_cells split_list (map (\<lambda>r. cell_of r src) (rows df))
      = Inr (map derived_list (map (\<lambda>r. cell_of r src) (rows df)))"
    using assms(2) by (intro apply_cells_texts) simp
  then show ?thesis
    using assms(1)
    by (simp add: derive_column_def getitem_def set_column_def zip_map_same comp_def)
qed

lemma derived_list_split: "is_Str v \<Longrightarrow> split_list v = Inr (derived_list v)"
  by (cases v) (simp_all add: derived_list_def)

lemma list_names_fresh:
  "apps_semelhantes_lista \<notin> set csv_columns" "alertas_lista \<notin> set csv_columns"
  "alertas_lista \<noteq> apps_semelhantes_lista"
  "ideia_resumo \<in> set csv_columns" "apps_semelhantes \<in> set csv_columns"
  "Alertas_etico_legais \<in> set csv_columns"
  by (simp_all add: names)

lemma cell_of_fill_row:
  assumes "c \<in> fst ` set r"
  shows "cell_of (fill_row r) c = fill_cell (cell_of r c)"
proof -
  from assms obtain v where "map_of r c = Some v"
    by (metis domD dom_map_of_conv_image_fst)
  then show ?thesis by (simp add: cell_of_def fill_row_def map_of_fill)
qed

lemma text_cell_filled:
  assumes "text_column df c" and "r \<in> set (rows df)" and "c \<in> fst ` set r"
  shows "is_Str (cell_of (fill_row r) c)"
proof -
  from assms(1,2) have "cell_of r c = NaN \<or> (\<exists>s. cell_of r c = Str s)"
    by (cases "cell_of r c") (auto simp: text_column_def)
  then show ?thesis by (auto simp: cell_of_fill_row[OF assms(3)])
qed

lemma clean_data_cleaned:
  assumes csv: "read_csv_frame df" and cols: "columns df = csv_columns"
    and t1: "text_column df ideia_resumo" and t2: "text_column df apps_semelhantes"
    and t3: "text_column df Alertas_etico_legais"
    and some: "\<exists>r \<in> set (rows df). is_Str (cell_of r ideia_resumo)"
  shows "clean_data df = Inr \<lparr>columns = cleaned_columns, rows = map with_lists (kept_rows df)\<rparr>"
    and "cleaned_view \<lparr>columns = cleaned_columns, rows = map with_lists (kept_rows df)\<rparr>"
proof -
  have keys: "map fst r = csv_columns" if "r \<in> set (rows df)" for r
    using csv cols that by (simp add: read_csv_frame_def)
  have keys3: "map fst r = csv_columns" if "r \<in> set (kept_rows df)" for r
    using that keys by (auto simp: kept_rows_def fill_row_def comp_def)
  have texts: "is_Str (cell_of r ideia_resumo) \<and> is_Str (cell_of r apps_semelhantes)
      \<and> is_Str (cell_of r Alertas_etico_legais)" if "r \<in> set (kept_rows df)" for r
  proof -
    from that obtain r0 where r0: "r0 \<in> set (rows df)" "r = fill_row r0"
      by (auto simp: kept_rows_def)
    have "c \<in> fst ` set r0" if "c \<in> set csv_columns" for c
      using keys[OF r0(1)] that by (metis set_map)
    with list_names_fresh(4-6) t1 t2 t3 r0 show ?thesis
      by (simp add: text_cell_filled)
  qed
  have ne: "\<not> df_empty df"
    using some cols by (auto simp: df_empty_def csv_columns_def)
  from some have acc: "str_accessor (map (\<lambda>r. cell_of r ideia_resumo) (rows df))
      = Inr (map (\<lambda>r. cell_of r ideia_resumo) (rows df))"
  proof -
    from some obtain r where "r \<in> set (rows df)" "is_object (cell_of r ideia_resumo)"
      by (metis is_Str.elims(2) is_object.simps(1))
    then show ?thesis by (auto simp: str_accessor_def)
  qed
  define df3 where "df3 = \<lparr>columns = csv_columns, rows = kept_rows df\<rparr>"
  have d3: "fillna (mask_rows (df\<lparr>rows := filter (\<lambda>r. cell_of r ideia_resumo \<noteq> NaN) (rows df)\<rparr>)
      (map (\<lambda>r. \<not> contains_sentinel (cell_of r ideia_resumo))
         (filter (\<lambda>r. cell_of r ideia_resumo \<noteq> NaN) (rows df)))) = df3"
    using cols
    by (simp add: fillna_def mask_rows_def mask_filter df3_def kept_rows_def fill_row_def[abs_def])
  define df4 where "df4 = \<lparr>columns = csv_columns @ [apps_semelhantes_lista],
      rows = map (\<lambda>r. AList.update apps_semelhantes_lista
                  (derived_list (cell_of r apps_semelhantes)) r) (kept_rows df)\<rparr>"
  have d4: "derive_column df3 apps_semelhantes apps_semelhantes_lista = Inr df4"
    using derive_column_texts[of apps_semelhantes df3 apps_semelhantes_lista]
      list_names_fresh texts
    by (simp add: df3_def df4_def)
  have apps4: "\<forall>r \<in> set (rows df4). is_Str (cell_of r Alertas_etico_legais)"
    using texts
    by (auto simp: df4_def cell_of_update Alertas_etico_legais_def apps_semelhantes_lista_def u_def)
  have d5: "derive_column df4 Alertas_etico_legais alertas_lista
      = Inr \<lparr>columns = cleaned_columns, rows = map with_lists (kept_rows df)\<rparr>"
    using derive_column_texts[OF _ apps4, of alertas_lista] list_names_fresh
    by (simp add: df4_def cleaned_columns_def with_lists_def comp_def cell_of_update
        Alertas_etico_legais_def apps_semelhantes_lista_def u_def)
  show "clean_data df = Inr \<lparr>columns = cleaned_columns, rows = map with_lists (kept_rows df)\<rparr>"
    using ne list_names_fresh(4) cols
    by (simp add: clean_data_def getitem_def acc Let_def d3 d4 d5)
  have different: "ideia_resumo \<noteq> alertas_lista" "ideia_resumo \<noteq> apps_semelhantes_lista"
    "apps_semelhantes \<noteq> alertas_lista" "apps_semelhantes \<noteq> apps_semelhantes_lista"
    "Alertas_etico_legais \<noteq> alertas_lista" "Alertas_etico_legais \<noteq> apps_semelhantes_lista"
    "apps_semelhantes_lista \<noteq> alertas_lista"
    by (simp_all add: names)
  have "normalized_row (with_lists r) \<and> map fst (with_lists r) = cleaned_columns"
    if "r \<in> set (kept_rows df)" for r
  proof
    show "normalized_row (with_lists r)"
      using texts[OF that] different
      by (simp add: normalized_row_def with_lists_def cell_of_update cell_of_update_same
          derived_list_split)
    show "map fst (with_lists r) = cleaned_columns"
      using keys3[OF that] list_names_fresh(1-3)
      by (simp add: with_lists_def update_keys cleaned_columns_def)
  qed
  then show "cleaned_view \<lparr>columns = cleaned_columns, rows = map with_lists (kept_rows df)\<rparr>"
    by (auto simp: cleaned_view_def frame_ok_def)
qed

text \<open>
  A survey file with at least one summary text, read with its ten columns and texts in the
  summary, similar apps and alerts columns, loads into a cleaned view.
\<close>

lemma load_data_cleaned:
  assumes "p \<noteq> []" and "read_csv_frame df" and "columns df = csv_columns"
    and "text_column df ideia_resumo" and "text_column df apps_semelhantes"
    and "text_column df Alertas_etico_legais"
    and "\<exists>r \<in> set (rows df). is_Str (cell_of r ideia_resumo)"
  shows "cleaned_view (load_data p (Inr df))"
  using assms(1) clean_data_cleaned[OF assms(2-7)] by (simp add: load_data_def)

text \<open>Both filters return views of a cleaned Dataset when given one.\<close>

lemma apply_filters_cleaned:
  assumes "apply_filters re df f = Inr d" and "cleaned_view df"
  shows "cleaned_view d"
proof -
  from apply_filters_Inr(1)[OF assms(1)] obtain search where
    "d = df\<lparr>rows := filter (keep_row search f) (rows df)\<rparr>" by blast
  with assms(2) show ?thesis by (simp add: cleaned_view_def frame_ok_def)
qed

lemma apply_advanced_filters_cleaned:
  assumes "cleaned_view df" and fresh: "num_features \<notin> set (columns df)"
  shows "\<exists>d. apply_advanced_filters df af = Inr d \<and> cleaned_view d"
proof -
  from assms have ok: "frame_ok df" and sub: "set cleaned_columns \<subseteq> set (columns df)"
    and norm: "\<forall>r \<in> set (rows df). normalized_row r"
    by (simp_all add: cleaned_view_def)
  have apps: "apps_semelhantes \<in> set (columns df)"
    using sub by (auto simp: cleaned_columns_def csv_columns_def)
  have obj: "\<forall>r \<in> set (rows df). is_object (cell_of r apps_semelhantes)"
  proof
    fix r assume "r \<in> set (rows df)"
    with norm have "is_Str (cell_of r apps_semelhantes)" by (simp add: normalized_row_def)
    then show "is_object (cell_of r apps_semelhantes)"
      by (cases "cell_of r apps_semelhantes") simp_all
  qed
  have "apply_advanced_filters df af
      = Inr (df\<lparr>rows := filter (\<lambda>r. in_range af r \<and> keep_apps af r) (rows df)\<rparr>)"
    using apps obj
    by (intro apply_advanced_filters_eq ok cleaned_has(2)[OF assms(1)] fresh) simp
  moreover have "cleaned_view (df\<lparr>rows := filter (\<lambda>r. in_range af r \<and> keep_apps af r) (rows df)\<rparr>)"
    using assms(1) by (simp add: cleaned_view_def frame_ok_def)
  ultimately show ?thesis by simp
qed

end
